theory Spec2Isabelle
  imports Complex_Main "HOL-Library.Log_Nat" "HOL-Library.AList"
begin

section \<open>JavaScript numbers\<close>

text \<open>
  A JavaScript number is an IEEE-754 double. A finite double is modelled by the rational
  it denotes, and every arithmetic operator rounds its exact result to 53 significant
  bits, ties to even (\<open>fl\<close>). The exponent is unbounded: overflow to Infinity,
  subnormals, NaN and the sign of zero are outside the model. Comparisons, \<open>Math.min\<close>
  and \<open>Math.max\<close> are exact on finite doubles.
\<close>

definition ties_even :: "rat \<Rightarrow> int" where
  "ties_even m = (let f = \<lfloor>m\<rfloor>; d = m - of_int f in
     if d < 1 / 2 then f else if 1 / 2 < d then f + 1 else if even f then f else f + 1)"

definition ulp_exp :: "rat \<Rightarrow> int" where
  \<comment> \<open>for \<open>0 < a\<close>: the exponent \<open>e\<close> with \<open>2 ^ 52 \<le> a / 2 ^ e < 2 ^ 53\<close>\<close>
  "ulp_exp a = (let (p, q) = quotient_of a; k = bitlen p - bitlen q in
     (if 2 powi k \<le> a then k else k - 1) - 52)"

definition fl :: "rat \<Rightarrow> rat" where
  "fl x = (if x = 0 then 0 else
     let e = ulp_exp \<bar>x\<bar> in sgn x * of_int (ties_even (\<bar>x\<bar> / 2 powi e)) * 2 powi e)"

definition js_add :: "rat \<Rightarrow> rat \<Rightarrow> rat" where
  "js_add a b = fl (a + b)"

definition js_sub :: "rat \<Rightarrow> rat \<Rightarrow> rat" where
  "js_sub a b = fl (a - b)"

definition js_mul :: "rat \<Rightarrow> rat \<Rightarrow> rat" where
  "js_mul a b = fl (a * b)"

definition js_div :: "rat \<Rightarrow> rat \<Rightarrow> rat" where
  \<comment> \<open>the source divides by the constants 2 and 100 only\<close>
  "js_div a b = fl (a / b)"

section \<open>Info boxes: slide-consistency.js\<close>

subsection \<open>Elements\<close>

text \<open>
  An info box as the handlers see it: the inline style properties they read and write,
  the class list, and the size that \<open>offsetWidth\<close> and \<open>offsetHeight\<close> report when
  \<open>positionInfoBoxGlobal\<close> measures it. \<open>style.left\<close> and \<open>style.top\<close> hold the
  number of pixels (the source appends \<open>'px'\<close>).
\<close>

record info_box =
  display :: string
  visibility :: string
  opacity :: string
  position :: string
  style_left :: rat
  style_top :: rat
  classList :: "string list"
  offsetWidth :: rat
  offsetHeight :: rat

text \<open>The bounding client rectangle of the hovered element, and the window.\<close>

record rect =
  rect_left :: rat
  rect_top :: rat
  rect_right :: rat
  rect_width :: rat
  rect_height :: rat

record viewport =
  innerWidth :: rat
  innerHeight :: rat

definition class_add :: "string \<Rightarrow> string list \<Rightarrow> string list" where
  "class_add c cs = (if c \<in> set cs then cs else cs @ [c])"

definition class_remove :: "string \<Rightarrow> string list \<Rightarrow> string list" where
  "class_remove c cs = filter (\<lambda>x. x \<noteq> c) cs"

definition class_contains :: "string \<Rightarrow> string list \<Rightarrow> bool" where
  "class_contains c cs = (c \<in> set cs)"

subsection \<open>positionInfoBoxGlobal\<close>

definition infoBoxWidth :: "info_box \<Rightarrow> rat" where
  \<comment> \<open>\<open>infoBox.offsetWidth || 240\<close>\<close>
  "infoBoxWidth b = (if offsetWidth b = 0 then 240 else offsetWidth b)"

definition infoBoxHeight :: "info_box \<Rightarrow> rat" where
  \<comment> \<open>\<open>infoBox.offsetHeight || 180\<close>\<close>
  "infoBoxHeight b = (if offsetHeight b = 0 then 180 else offsetHeight b)"

definition isInRightHalf :: "viewport \<Rightarrow> rect \<Rightarrow> bool" where
  "isInRightHalf win targetRect =
     (js_div (innerWidth win) 2 < js_add (rect_left targetRect) (js_div (rect_width targetRect) 2))"

definition rightLimit :: "viewport \<Rightarrow> info_box \<Rightarrow> rat" where
  \<comment> \<open>\<open>windowWidth - infoBoxWidth - 10\<close>\<close>
  "rightLimit win b = js_sub (js_sub (innerWidth win) (infoBoxWidth b)) 10"

definition bottomLimit :: "viewport \<Rightarrow> info_box \<Rightarrow> rat" where
  \<comment> \<open>\<open>windowHeight - infoBoxHeight - 10\<close>\<close>
  "bottomLimit win b = js_sub (js_sub (innerHeight win) (infoBoxHeight b)) 10"

definition leftPos :: "viewport \<Rightarrow> info_box \<Rightarrow> rect \<Rightarrow> rat \<times> string" where
  \<comment> \<open>the left coordinate and the positioning class that goes with it\<close>
  "leftPos win b targetRect =
     (let shouldPositionOnRight = (1280 \<le> innerWidth win) in
      if shouldPositionOnRight
      then (min (rightLimit win b) (js_add (rect_right targetRect) 10), ''right-side'')
      else if isInRightHalf win targetRect
      then (max 10 (js_sub (js_sub (rect_left targetRect) (infoBoxWidth b)) 10), ''left-side'')
      else (min (rightLimit win b) (js_add (rect_right targetRect) 10), ''right-side''))"

definition finalTop :: "viewport \<Rightarrow> info_box \<Rightarrow> rect \<Rightarrow> rat" where
  "finalTop win b targetRect =
     (let centerY = js_add (rect_top targetRect) (js_div (rect_height targetRect) 2);
          topPos = js_sub centerY (js_div (infoBoxHeight b) 2)
      in max 10 (min (bottomLimit win b) topPos))"

text \<open>
  \<open>None\<close> is a null argument: the function returns at once. The box is measured while
  its visibility and opacity are forced to hidden and 0, which are then restored.
\<close>

definition positionInfoBoxGlobal ::
  "viewport \<Rightarrow> info_box option \<Rightarrow> rect option \<Rightarrow> info_box option" where
  "positionInfoBoxGlobal win infoBox targetElement =
     (case infoBox of
        None \<Rightarrow> None
      | Some b \<Rightarrow>
          (case targetElement of
             None \<Rightarrow> Some b
           | Some targetRect \<Rightarrow>
               let originalVisibility = visibility b;
                   originalOpacity = opacity b;
                   measured = b\<lparr>visibility := ''hidden'', opacity := ''0''\<rparr>;
                   restored = measured\<lparr>visibility := originalVisibility,
                                         opacity := originalOpacity\<rparr>;
                   cleared = restored\<lparr>classList :=
                     class_remove ''right-side'' (class_remove ''left-side'' (classList restored))\<rparr>;
                   (l, side) = leftPos win measured targetRect;
                   t = finalTop win measured targetRect
               in Some (cleared\<lparr>classList := class_add side (classList cleared),
                                position := ''fixed'', style_left := l, style_top := t\<rparr>)))"

subsection \<open>Resolving the info box of a funnel level\<close>

text \<open>
  Strings are lists of 8-bit characters. \<open>split_on\<close> is \<open>String.prototype.split\<close> for a
  separator of one character: it never returns the empty array, so \<open>pop\<close> returns the
  last segment.
\<close>

definition startsWith :: "string \<Rightarrow> string \<Rightarrow> bool" where
  "startsWith s p = (take (length p) s = p)"

fun split_on :: "char \<Rightarrow> string \<Rightarrow> string list" where
  "split_on c [] = [[]]"
| "split_on c (x # xs) =
     (if x = c then [] # split_on c xs
      else (case split_on c xs of [] \<Rightarrow> [[x]] | seg # segs \<Rightarrow> (x # seg) # segs))"

definition pop :: "string list \<Rightarrow> string" where
  "pop segs = last segs"

text \<open>
  \<open>parseInt\<close> with no radix: leading white space is skipped, a sign is read, the
  prefix 0x or 0X selects radix 16, and the longest run of digits is the value; with no
  digit the result is NaN (\<open>None\<close>). Trailing characters are ignored. The value is
  rounded to a double; an engine may approximate a decimal numeral of more than 20 digits
  further.
\<close>

definition is_js_space :: "char \<Rightarrow> bool" where
  "is_js_space c = (c \<in> set [CHR 0x09, CHR 0x0A, CHR 0x0B, CHR 0x0C, CHR 0x0D, CHR 0x20, CHR 0xA0])"

definition digit_table :: "(char \<times> nat) list" where
  "digit_table =
     [(CHR ''0'', 0), (CHR ''1'', 1), (CHR ''2'', 2), (CHR ''3'', 3), (CHR ''4'', 4),
      (CHR ''5'', 5), (CHR ''6'', 6), (CHR ''7'', 7), (CHR ''8'', 8), (CHR ''9'', 9),
      (CHR ''a'', 10), (CHR ''b'', 11), (CHR ''c'', 12), (CHR ''d'', 13), (CHR ''e'', 14),
      (CHR ''f'', 15), (CHR ''A'', 10), (CHR ''B'', 11), (CHR ''C'', 12), (CHR ''D'', 13),
      (CHR ''E'', 14), (CHR ''F'', 15)]"

definition is_digit :: "nat \<Rightarrow> char \<Rightarrow> bool" where
  "is_digit radix c = (case map_of digit_table c of None \<Rightarrow> False | Some v \<Rightarrow> v < radix)"

definition digits_value :: "nat \<Rightarrow> string \<Rightarrow> nat" where
  "digits_value radix ds =
     foldl (\<lambda>acc c. acc * radix + (case map_of digit_table c of None \<Rightarrow> 0 | Some v \<Rightarrow> v)) 0 ds"

definition js_parseInt :: "string \<Rightarrow> rat option" where
  "js_parseInt s =
     (let s1 = dropWhile is_js_space s;
          (negative, s2) = (case s1 of
              [] \<Rightarrow> (False, s1)
            | c # r \<Rightarrow> if c = CHR ''-'' then (True, r)
                       else if c = CHR ''+'' then (False, r) else (False, s1));
          (radix, s3) = (if take 2 s2 = ''0x'' \<or> take 2 s2 = ''0X''
                         then (16, drop 2 s2) else (10, s2));
          ds = takeWhile (is_digit radix) s3
      in if ds = [] then None
         else Some (fl ((if negative then - 1 else 1) * of_nat (digits_value radix ds))))"

text \<open>
  The template literal turns the number into text. NaN prints as NaN, an integer below
  \<open>2 ^ 53\<close> in magnitude as its decimal digits. From \<open>2 ^ 53\<close> on JavaScript prints
  the shortest digits that read back as the same double, padded with zeros, and from
  \<open>10 ^ 21\<close> on exponent notation; that text is left to the parameter \<open>big\<close>.
\<close>

definition digit_char :: "nat \<Rightarrow> char" where
  "digit_char d = ''0123456789'' ! d"

fun decimal :: "nat \<Rightarrow> string" where
  "decimal n = (if n < 10 then [digit_char n] else decimal (n div 10) @ [digit_char (n mod 10)])"

declare decimal.simps [simp del]

definition decimal_digit :: "char \<Rightarrow> bool" where
  "decimal_digit c = (c \<in> set ''0123456789'')"

definition number_to_string :: "(rat \<Rightarrow> string) \<Rightarrow> rat option \<Rightarrow> string" where
  "number_to_string big v =
     (case v of
        None \<Rightarrow> ''NaN''
      | Some x \<Rightarrow>
          if x = of_int \<lfloor>x\<rfloor> \<and> \<bar>x\<bar> < 2 ^ 53
          then (if x < 0 then CHR ''-'' # decimal (nat \<lfloor>- x\<rfloor>) else decimal (nat \<lfloor>x\<rfloor>))
          else big x)"

definition infoBoxId :: "(rat \<Rightarrow> string) \<Rightarrow> string \<Rightarrow> string" where
  "infoBoxId big levelClass =
     (let levelNum = js_parseInt (pop (split_on CHR ''-'' levelClass))
      in ''info-box-'' @ number_to_string big (map_option (\<lambda>n. js_sub n 1) levelNum))"

subsection \<open>The page, its timers and the hover handlers\<close>

text \<open>
  The page holds the elements that have an id, in document order, the clock in
  milliseconds and the pending timers. A timer is the callback of one \<open>setTimeout\<close>
  call: \<open>Stage1\<close> is the 200 ms callback of the level's mouseleave handler,
  \<open>HideCheck\<close> the 300 ms callback that may hide the box. Each closure holds its box,
  here the box's id. The two level handlers are installed on the elements of class
  \<open>funnel-level\<close>: on any other element a pointer event runs no handler.
\<close>

datatype timer_action = Stage1 string | HideCheck string

fun delay :: "timer_action \<Rightarrow> nat" where
  "delay (Stage1 _) = 200"
| "delay (HideCheck _) = 300"

record timer =
  created :: nat
  action :: timer_action

record page =
  now :: nat
  boxes :: "(string \<times> info_box) list"
  timers :: "timer list"

definition getElementById :: "page \<Rightarrow> string \<Rightarrow> info_box option" where
  "getElementById s i = map_of (boxes s) i"

definition setElement :: "string \<Rightarrow> info_box \<Rightarrow> page \<Rightarrow> page" where
  "setElement i b s = s\<lparr>boxes := AList.update i b (boxes s)\<rparr>"

definition setTimeout :: "timer_action \<Rightarrow> page \<Rightarrow> page" where
  "setTimeout a s = s\<lparr>timers := timers s @ [\<lparr>created = now s, action = a\<rparr>]\<rparr>"

definition level_mouseenter ::
  "(rat \<Rightarrow> string) \<Rightarrow> viewport \<Rightarrow> string list \<Rightarrow> rect \<Rightarrow> page \<Rightarrow> page" where
  "level_mouseenter big win classes targetRect s =
     (if \<not> class_contains ''funnel-level'' classes then s
      else
        (case find (\<lambda>cls. startsWith cls ''funnel-level-'') classes of
           None \<Rightarrow> s
         | Some levelClass \<Rightarrow>
             let i = infoBoxId big levelClass in
             (case getElementById s i of
                None \<Rightarrow> s
              | Some infoBox \<Rightarrow>
                  let shown = infoBox\<lparr>display := ''block'',
                                classList := class_add ''hover-visible'' (classList infoBox)\<rparr>
                  in (case positionInfoBoxGlobal win (Some shown) (Some targetRect) of
                        None \<Rightarrow> s
                      | Some placed \<Rightarrow> setElement i placed s))))"

definition level_mouseleave :: "(rat \<Rightarrow> string) \<Rightarrow> string list \<Rightarrow> page \<Rightarrow> page" where
  "level_mouseleave big classes s =
     (if \<not> class_contains ''funnel-level'' classes then s
      else
        (case find (\<lambda>cls. startsWith cls ''funnel-level-'') classes of
           None \<Rightarrow> s
         | Some levelClass \<Rightarrow>
             let i = infoBoxId big levelClass in
             (case getElementById s i of
                None \<Rightarrow> s
              | Some infoBox \<Rightarrow> setTimeout (Stage1 i) s)))"

text \<open>
  The handlers of an info box are installed on the elements of class \<open>info-box\<close>.
\<close>

definition box_mouseenter :: "string \<Rightarrow> page \<Rightarrow> page" where
  "box_mouseenter i s =
     (case getElementById s i of
        None \<Rightarrow> s
      | Some box \<Rightarrow>
          if class_contains ''info-box'' (classList box)
          then setElement i (box\<lparr>classList := class_add ''hover-visible'' (classList box)\<rparr>) s
          else s)"

definition box_mouseleave :: "string \<Rightarrow> page \<Rightarrow> page" where
  "box_mouseleave i s =
     (case getElementById s i of
        None \<Rightarrow> s
      | Some box \<Rightarrow>
          if class_contains ''info-box'' (classList box)
          then setTimeout (HideCheck i)
                 (setElement i (box\<lparr>classList := class_remove ''hover-visible'' (classList box)\<rparr>) s)
          else s)"

definition close_click :: "string \<Rightarrow> page \<Rightarrow> page" where
  \<comment> \<open>the click handler of the box's \<open>.info-box-close\<close> button\<close>
  "close_click i s =
     (case getElementById s i of
        None \<Rightarrow> s
      | Some box \<Rightarrow>
          if class_contains ''info-box'' (classList box)
          then setTimeout (HideCheck i)
                 (setElement i (box\<lparr>classList :=
                    class_remove ''active'' (class_remove ''hover-visible'' (classList box))\<rparr>) s)
          else s)"

text \<open>
  The callbacks. \<open>hovered\<close> is what \<open>infoBox.matches(':hover')\<close> returns when the
  200 ms callback runs.
\<close>

definition hide_check :: "string \<Rightarrow> page \<Rightarrow> page" where
  "hide_check i s =
     (case getElementById s i of
        None \<Rightarrow> s
      | Some box \<Rightarrow>
          if \<not> class_contains ''hover-visible'' (classList box) \<and>
             \<not> class_contains ''active'' (classList box)
          then setElement i (box\<lparr>display := ''none''\<rparr>) s
          else s)"

definition stage1 :: "bool \<Rightarrow> string \<Rightarrow> page \<Rightarrow> page" where
  "stage1 hovered i s =
     (case getElementById s i of
        None \<Rightarrow> s
      | Some infoBox \<Rightarrow>
          if \<not> hovered
          then setTimeout (HideCheck i)
                 (setElement i
                    (infoBox\<lparr>classList := class_remove ''hover-visible'' (classList infoBox)\<rparr>) s)
          else s)"

fun run_timer :: "bool \<Rightarrow> timer_action \<Rightarrow> page \<Rightarrow> page" where
  "run_timer hovered (Stage1 i) s = stage1 hovered i s"
| "run_timer hovered (HideCheck i) s = hide_check i s"

definition due :: "page \<Rightarrow> timer \<Rightarrow> bool" where
  "due s t = (created t + delay (action t) \<le> now s)"

definition drop_nth :: "nat \<Rightarrow> 'a list \<Rightarrow> 'a list" where
  "drop_nth n xs = take n xs @ drop (Suc n) xs"

definition fire :: "nat \<Rightarrow> bool \<Rightarrow> page \<Rightarrow> page" where
  \<comment> \<open>the browser runs the n-th pending timer, never before its delay has passed\<close>
  "fire n hovered s =
     (if n < length (timers s) \<and> due s (timers s ! n)
      then run_timer hovered (action (timers s ! n)) (s\<lparr>timers := drop_nth n (timers s)\<rparr>)
      else s)"

datatype event =
    LevelEnter "string list" rect viewport
  | LevelLeave "string list"
  | BoxEnter string
  | BoxLeave string
  | CloseClick string
  | Elapse nat
  | Fire nat bool

fun step :: "(rat \<Rightarrow> string) \<Rightarrow> event \<Rightarrow> page \<Rightarrow> page" where
  "step big (LevelEnter classes targetRect win) s = level_mouseenter big win classes targetRect s"
| "step big (LevelLeave classes) s = level_mouseleave big classes s"
| "step big (BoxEnter i) s = box_mouseenter i s"
| "step big (BoxLeave i) s = box_mouseleave i s"
| "step big (CloseClick i) s = close_click i s"
| "step big (Elapse ms) s = s\<lparr>now := now s + ms\<rparr>"
| "step big (Fire n hovered) s = fire n hovered s"

definition run :: "(rat \<Rightarrow> string) \<Rightarrow> event list \<Rightarrow> page \<Rightarrow> page" where
  "run big es s = foldl (\<lambda>s e. step big e s) s es"

subsection \<open>calculateOffset\<close>

definition calculateOffset :: "rat \<Rightarrow> rat \<Rightarrow> rat" where
  "calculateOffset percent circumference =
     js_sub circumference (js_div (js_mul circumference percent) 100)"

section \<open>Storylane demos: the preloader and the modals\<close>

subsection \<open>The document\<close>

text \<open>
  An iframe carries the attributes and inline style properties that the two scripts
  set. An element is anything that \<open>getElementById\<close> or a class selector can reach:
  its id, its class list and the iframes inside its first \<open>.sl-embed\<close> descendant
  (\<open>None\<close> when it has none). The elements are the static markup, in document order;
  the iframes appended to the body come after them.
\<close>

record iframe =
  src :: string
  data_agent_id :: "string option"
  frame_classes :: "string list"
  aria_hidden :: "string option"
  tabindex :: "string option"
  st_position :: string
  st_top :: string
  st_left :: string
  st_width :: string
  st_height :: string
  st_border :: string
  st_opacity :: string
  st_pointerEvents :: string
  st_zIndex :: string

record element =
  el_id :: "string option"
  el_classes :: "string list"
  sl_embed :: "iframe list option"

text \<open>
  \<open>status\<close> holds the own properties of \<open>window.storylanePreloadStatus\<close>.
  \<open>storylaneUtils\<close> tells whether the preloader script has been loaded, and
  \<open>reveal_keyboard\<close> is the keyboard setting of Reveal, \<open>None\<close> while Reveal is
  undefined.
\<close>

record document =
  status :: "(string \<times> bool) list"
  elements :: "element list"
  body_frames :: "iframe list"
  body_overflow :: string
  storylaneUtils :: bool
  reveal_keyboard :: "bool option"

definition initial_status :: "(string \<times> bool) list" where
  "initial_status =
     [(''po-agent'', False), (''onboarding-agent'', False),
      (''interview-agent'', False), (''claim-agent'', False)]"

definition storylaneUrls :: "(string \<times> string) list" where
  "storylaneUrls =
     [(''po-agent'', ''https://app.storylane.io/demo/d9xx3md7cyhg?embed=inline''),
      (''onboarding-agent'', ''https://app.storylane.io/demo/daptmkw6awmo?embed=inline''),
      (''interview-agent'', ''https://app.storylane.io/demo/dhhssqjljjan?embed=inline''),
      (''claim-agent'', ''https://app.storylane.io/demo/1qaq6ksdkphn?embed=inline'')]"

definition modalMap :: "(string \<times> string) list" where
  "modalMap =
     [(''po-agent'', ''storylane-modal-po''),
      (''onboarding-agent'', ''storylane-modal-onboarding''),
      (''interview-agent'', ''storylane-modal-interview''),
      (''claim-agent'', ''storylane-modal-claim'')]"

definition known_agent :: "string \<Rightarrow> bool" where
  "known_agent agentId = (agentId \<in> set (map fst storylaneUrls))"

text \<open>
  Reading \<open>table[key]\<close> on an object literal finds an own property or, failing that,
  a property inherited from \<open>Object.prototype\<close> (\<open>constructor\<close>, \<open>toString\<close>, ...).
  The parameter \<open>inherited\<close> gives, for each inherited name, the text its value turns
  into when used as a string; every inherited value is truthy.
\<close>

definition lookup :: "(string \<Rightarrow> string option) \<Rightarrow> (string \<times> string) list \<Rightarrow> string \<Rightarrow> string option" where
  "lookup inherited table key =
     (case map_of table key of Some v \<Rightarrow> Some v | None \<Rightarrow> inherited key)"

definition preloaded :: "(string \<Rightarrow> string option) \<Rightarrow> document \<Rightarrow> string \<Rightarrow> bool" where
  \<comment> \<open>the truth value of \<open>window.storylanePreloadStatus[agentId]\<close>\<close>
  "preloaded inherited d agentId =
     (case map_of (status d) agentId of Some v \<Rightarrow> v | None \<Rightarrow> inherited agentId \<noteq> None)"

subsection \<open>preloadStorylaneDemos\<close>

definition preloadFrame :: "string \<Rightarrow> string \<Rightarrow> iframe" where
  "preloadFrame url agentId =
     \<lparr>src = url, data_agent_id = Some agentId, frame_classes = [''storylane-preloader''],
      aria_hidden = Some ''true'', tabindex = Some ''-1'',
      st_position = ''absolute'', st_top = '''', st_left = '''',
      st_width = ''1px'', st_height = ''1px'', st_border = '''',
      st_opacity = ''0'', st_pointerEvents = ''none'', st_zIndex = ''-1000''\<rparr>"

definition preloadStorylaneDemos ::
  "(string \<Rightarrow> string option) \<Rightarrow> string \<Rightarrow> document \<Rightarrow> document" where
  "preloadStorylaneDemos inherited agentId d =
     (if agentId = [] \<or> preloaded inherited d agentId then d
      else (case lookup inherited storylaneUrls agentId of
              None \<Rightarrow> d
            | Some url \<Rightarrow>
                d\<lparr>body_frames := body_frames d @ [preloadFrame url agentId],
                  status := AList.update agentId True (status d)\<rparr>))"

subsection \<open>swapPreloadedIframe\<close>

text \<open>
  The selector \<open>.storylane-preloader[data-agent-id="..."]\<close> is built by putting the
  agent id between two double quotes, unescaped.
  \<^item> For an id without the characters that end or escape a CSS string (\<open>css_plain\<close>)
    it selects the first iframe, in document order, of that class and attribute value.
  \<^item> An id made of name characters and at least one double quote (\<open>css_unbalanced\<close>)
    ends the string early: the three or more double quotes then delimit at least two
    strings between the brackets, where an attribute selector takes one value, so the
    selector is invalid and \<open>querySelector\<close> throws a SyntaxError.
  \<^item> What the selector engine does with any other id (escapes, brackets, line breaks)
    is left to the parameter \<open>css\<close>: it throws or it selects some node.
\<close>

datatype dom_error = SyntaxError

definition css_plain :: "string \<Rightarrow> bool" where
  "css_plain agentId =
     list_all (\<lambda>c. c \<notin> set [CHR 0x22, CHR 0x5C, CHR 0x0A, CHR 0x0C, CHR 0x0D, CHR 0x00]) agentId"

definition is_name_char :: "char \<Rightarrow> bool" where
  "is_name_char c =
     (c \<in> set ''abcdefghijklmnopqrstuvwxyzABCDEFGHIJKLMNOPQRSTUVWXYZ0123456789-_'')"

definition css_unbalanced :: "string \<Rightarrow> bool" where
  "css_unbalanced agentId =
     (CHR 0x22 \<in> set agentId \<and> list_all (\<lambda>c. c = CHR 0x22 \<or> is_name_char c) agentId)"

definition embedded :: "element \<Rightarrow> iframe list" where
  "embedded e = (case sl_embed e of None \<Rightarrow> [] | Some frames \<Rightarrow> frames)"

definition all_iframes :: "document \<Rightarrow> iframe list" where
  "all_iframes d = concat (map embedded (elements d)) @ body_frames d"

definition is_preloader :: "string \<Rightarrow> iframe \<Rightarrow> bool" where
  "is_preloader agentId f =
     (class_contains ''storylane-preloader'' (frame_classes f) \<and> data_agent_id f = Some agentId)"

definition query_preloader ::
  "(string \<Rightarrow> document \<Rightarrow> dom_error + iframe option) \<Rightarrow> document \<Rightarrow> string \<Rightarrow>
     dom_error + iframe option" where
  "query_preloader css d agentId =
     (if css_plain agentId then Inr (find (is_preloader agentId) (all_iframes d))
      else if css_unbalanced agentId then Inl SyntaxError
      else css agentId d)"

definition find_element :: "document \<Rightarrow> string \<Rightarrow> element option" where
  \<comment> \<open>\<open>document.getElementById\<close>\<close>
  "find_element d i = find (\<lambda>e. el_id e = Some i) (elements d)"

fun replace_first :: "('a \<Rightarrow> bool) \<Rightarrow> 'a \<Rightarrow> 'a list \<Rightarrow> 'a list" where
  "replace_first p v [] = []"
| "replace_first p v (x # xs) = (if p x then v # xs else x # replace_first p v xs)"

definition set_element :: "string \<Rightarrow> element \<Rightarrow> document \<Rightarrow> document" where
  \<comment> \<open>writes back the element that \<open>find_element\<close> returned\<close>
  "set_element i e d = d\<lparr>elements := replace_first (\<lambda>e. el_id e = Some i) e (elements d)\<rparr>"

definition cloneFrame :: "iframe \<Rightarrow> iframe" where
  \<comment> \<open>\<open>cloneNode(true)\<close> followed by the style and attribute changes\<close>
  "cloneFrame preloadedFrame =
     preloadedFrame\<lparr>st_position := ''absolute'', st_top := ''0'', st_left := ''0'',
       st_width := ''100%'', st_height := ''100%'', st_border := ''none'',
       st_opacity := ''1'', st_pointerEvents := ''auto'', st_zIndex := ''1'',
       aria_hidden := None, tabindex := None, frame_classes := [''sl-demo'']\<rparr>"

text \<open>
  The function returns a truth value and leaves a document, or the exception of
  \<open>querySelector\<close> leaves it before anything has been changed.
\<close>

definition swapPreloadedIframe ::
  "(string \<Rightarrow> document \<Rightarrow> dom_error + iframe option) \<Rightarrow> (string \<Rightarrow> string option) \<Rightarrow>
     string \<Rightarrow> document \<Rightarrow> dom_error + bool \<times> document" where
  "swapPreloadedIframe css inherited agentId d =
     (case query_preloader css d agentId of
        Inl e \<Rightarrow> Inl e
      | Inr None \<Rightarrow> Inr (False, d)
      | Inr (Some preloadedFrame) \<Rightarrow>
          (case lookup inherited modalMap agentId of
             None \<Rightarrow> Inr (False, d)
           | Some modalId \<Rightarrow>
               (case find_element d modalId of
                  None \<Rightarrow> Inr (False, d)
                | Some modal \<Rightarrow>
                    (case sl_embed modal of
                       None \<Rightarrow> Inr (False, d)
                     | Some targetContainer \<Rightarrow>
                         let remaining = (case targetContainer of
                                            [] \<Rightarrow> []
                                          | existingIframe # others \<Rightarrow> others);
                             clonedFrame = cloneFrame preloadedFrame
                         in Inr (True, set_element modalId
                                         (modal\<lparr>sl_embed := Some (remaining @ [clonedFrame])\<rparr>) d)))))"

subsection \<open>showStoryLaneModal and closeStoryLaneModals: slides-interactive.js\<close>

definition closeStoryLaneModals :: "document \<Rightarrow> document" where
  "closeStoryLaneModals d =
     d\<lparr>elements := map (\<lambda>modal.
            if class_contains ''storylane-modal'' (el_classes modal)
            then modal\<lparr>el_classes := class_remove ''active'' (el_classes modal)\<rparr>
            else modal) (elements d),
       body_overflow := '''',
       reveal_keyboard := map_option (\<lambda>_. True) (reveal_keyboard d)\<rparr>"

definition hide_first_iframe :: "element \<Rightarrow> element" where
  \<comment> \<open>\<open>modal.querySelector('iframe')\<close>, made transparent until it has loaded\<close>
  "hide_first_iframe modal =
     (case sl_embed modal of
        Some (iframe # others) \<Rightarrow> modal\<lparr>sl_embed := Some (iframe\<lparr>st_opacity := ''0''\<rparr> # others)\<rparr>
      | _ \<Rightarrow> modal)"

definition activate_modal :: "string \<Rightarrow> bool \<Rightarrow> document \<Rightarrow> document" where
  \<comment> \<open>the statements of \<open>showStoryLaneModal\<close> that follow the call of the swap\<close>
  "activate_modal modalId usedPreloadedFrame d2 =
     (let d3 = (case find_element d2 modalId of
                  None \<Rightarrow> d2
                | Some modal \<Rightarrow>
                    let opened = modal\<lparr>el_classes := class_add ''active'' (el_classes modal)\<rparr>
                    in set_element modalId
                         (if usedPreloadedFrame then opened else hide_first_iframe opened) d2)
      in d3\<lparr>reveal_keyboard := map_option (\<lambda>_. False) (reveal_keyboard d3)\<rparr>)"

text \<open>
  The result is the document the call leaves, with the exception it ends in, if any: an
  exception of the swap leaves \<open>showStoryLaneModal\<close> after the modals have been closed
  and the body's overflow hidden, and before the modal is activated.
\<close>

definition showStoryLaneModal ::
  "(string \<Rightarrow> document \<Rightarrow> dom_error + iframe option) \<Rightarrow> (string \<Rightarrow> string option) \<Rightarrow>
     string \<Rightarrow> document \<Rightarrow> dom_error option \<times> document" where
  "showStoryLaneModal css inherited agentId d0 =
     (let d = closeStoryLaneModals d0 in
      case lookup inherited modalMap agentId of
        None \<Rightarrow> (None, d)
      | Some modalId \<Rightarrow>
          (case find_element d modalId of
             None \<Rightarrow> (None, d)
           | Some _ \<Rightarrow>
               let d1 = d\<lparr>body_overflow := ''hidden''\<rparr> in
               if storylaneUtils d1
               then (case swapPreloadedIframe css inherited agentId d1 of
                       Inl e \<Rightarrow> (Some e, d1)
                     | Inr (usedPreloadedFrame, d2) \<Rightarrow>
                         (None, activate_modal modalId usedPreloadedFrame d2))
               else (None, activate_modal modalId False d1)))"

definition is_open :: "element \<Rightarrow> bool" where
  \<comment> \<open>the selector \<open>.storylane-modal.active\<close> of the Escape handler\<close>
  "is_open e = (class_contains ''storylane-modal'' (el_classes e) \<and>
                class_contains ''active'' (el_classes e))"

definition open_panels :: "document \<Rightarrow> element list" where
  "open_panels d = filter is_open (elements d)"

subsection \<open>Sequences of calls\<close>

datatype call = Preload string | Swap string | Activate string | Deactivate

text \<open>The document that a call leaves, whether it returns or throws.\<close>

definition after_swap ::
  "(string \<Rightarrow> document \<Rightarrow> dom_error + iframe option) \<Rightarrow> (string \<Rightarrow> string option) \<Rightarrow>
     string \<Rightarrow> document \<Rightarrow> document" where
  "after_swap css inherited agentId d =
     (case swapPreloadedIframe css inherited agentId d of Inl e \<Rightarrow> d | Inr r \<Rightarrow> snd r)"

fun do_call ::
  "(string \<Rightarrow> document \<Rightarrow> dom_error + iframe option) \<Rightarrow> (string \<Rightarrow> string option) \<Rightarrow>
     call \<Rightarrow> document \<Rightarrow> document" where
  "do_call css inherited (Preload agentId) d = preloadStorylaneDemos inherited agentId d"
| "do_call css inherited (Swap agentId) d = after_swap css inherited agentId d"
| "do_call css inherited (Activate agentId) d = snd (showStoryLaneModal css inherited agentId d)"
| "do_call css inherited Deactivate d = closeStoryLaneModals d"

fun is_modal_call :: "call \<Rightarrow> bool" where
  "is_modal_call (Activate _) = True"
| "is_modal_call Deactivate = True"
| "is_modal_call _ = False"

definition do_calls ::
  "(string \<Rightarrow> document \<Rightarrow> dom_error + iframe option) \<Rightarrow> (string \<Rightarrow> string option) \<Rightarrow>
     call list \<Rightarrow> document \<Rightarrow> document" where
  "do_calls css inherited cs d = foldl (\<lambda>d c. do_call css inherited c d) d cs"

subsection \<open>Invariants of the document\<close>

text \<open>
  The status table starts with the four known keys and only ever gets keys written by
  \<open>preloadStorylaneDemos\<close>. No iframe of the static markup carries the class
  \<open>storylane-preloader\<close>; the clones put into the modals carry \<open>sl-demo\<close>.
\<close>

definition status_keys_known :: "document \<Rightarrow> bool" where
  "status_keys_known d = list_all known_agent (map fst (status d))"

definition no_embedded_preloader :: "document \<Rightarrow> bool" where
  "no_embedded_preloader d =
     list_all (\<lambda>e. list_all (\<lambda>f. \<not> class_contains ''storylane-preloader'' (frame_classes f))
                  (embedded e)) (elements d)"

section \<open>Example data\<close>

definition wide_window :: viewport where
  "wide_window = \<lparr>innerWidth = 1440, innerHeight = 900\<rparr>"

definition narrow_window :: viewport where
  "narrow_window = \<lparr>innerWidth = 1024, innerHeight = 768\<rparr>"

definition short_window :: viewport where
  "short_window = \<lparr>innerWidth = 1280, innerHeight = 600\<rparr>"

definition example_box :: info_box where
  "example_box =
     \<lparr>display = ''none'', visibility = '''', opacity = '''', position = '''',
      style_left = 0, style_top = 0, classList = [''info-box''],
      offsetWidth = 240, offsetHeight = 180\<rparr>"

definition tall_box :: info_box where
  "tall_box = example_box\<lparr>offsetHeight := 700\<rparr>"

definition left_anchor :: rect where
  "left_anchor =
     \<lparr>rect_left = 100, rect_top = 200, rect_right = 300, rect_width = 200, rect_height = 50\<rparr>"

definition right_anchor :: rect where
  "right_anchor =
     \<lparr>rect_left = 700, rect_top = 200, rect_right = 900, rect_width = 200, rect_height = 50\<rparr>"

definition Math_PI :: rat where
  \<comment> \<open>the double nearest to pi\<close>
  "Math_PI = 884279719003555 / 2 ^ 48"

definition default_circumference :: rat where
  \<comment> \<open>\<open>2 * Math.PI * 20\<close>, the circumference the callers fall back to\<close>
  "default_circumference = js_mul (js_mul 2 Math_PI) 20"

definition shown_box :: info_box where
  "shown_box = example_box\<lparr>display := ''block''\<rparr>"

definition example_page :: page where
  "example_page = \<lparr>now = 0, boxes = [(''info-box-2'', example_box)], timers = []\<rparr>"

definition pending_page :: page where
  \<comment> \<open>a shown box 300 ms after its mouseleave\<close>
  "pending_page =
     \<lparr>now = 300, boxes = [(''info-box-2'', shown_box)],
      timers = [\<lparr>created = 0, action = HideCheck ''info-box-2''\<rparr>]\<rparr>"

definition no_exponent :: "rat \<Rightarrow> string" where
  "no_exponent x = []"

definition level_3 :: "string list" where
  "level_3 = [''funnel-level'', ''funnel-level-3'']"

text \<open>
  The pointer rests on a funnel level for a second, leaves it and comes back 100 ms
  later, then rests on it again; the two callbacks of the mouseleave run 200 ms and
  500 ms after it. The pointer is never over the box.
\<close>

definition leave_and_return :: "event list" where
  "leave_and_return =
     [LevelEnter level_3 left_anchor wide_window, Elapse 1000, LevelLeave level_3, Elapse 100,
      LevelEnter level_3 left_anchor wide_window, Elapse 100, Fire 0 False,
      Elapse 300, Fire 0 False]"

text \<open>The same on the box itself: its mouseleave, its mouseenter 100 ms later, the callback.\<close>

definition leave_and_return_box :: "event list" where
  "leave_and_return_box =
     [LevelEnter level_3 left_anchor wide_window, BoxEnter ''info-box-2'',
      BoxLeave ''info-box-2'', Elapse 100, BoxEnter ''info-box-2'', Elapse 200, Fire 0 False]"

definition static_frame :: iframe where
  \<comment> \<open>the iframe that the markup of a modal embeds\<close>
  "static_frame =
     \<lparr>src = ''https://app.storylane.io/demo/d9xx3md7cyhg?embed=inline'', data_agent_id = None,
      frame_classes = [''sl-demo''], aria_hidden = None, tabindex = None,
      st_position = '''', st_top = '''', st_left = '''', st_width = '''', st_height = '''',
      st_border = '''', st_opacity = '''', st_pointerEvents = '''', st_zIndex = ''''\<rparr>"

definition po_modal :: element where
  "po_modal =
     \<lparr>el_id = Some ''storylane-modal-po'', el_classes = [''storylane-modal''],
      sl_embed = Some [static_frame]\<rparr>"

definition claim_modal :: element where
  "claim_modal =
     \<lparr>el_id = Some ''storylane-modal-claim'', el_classes = [''storylane-modal''],
      sl_embed = Some [static_frame]\<rparr>"

definition example_document :: document where
  "example_document =
     \<lparr>status = initial_status, elements = [po_modal, claim_modal], body_frames = [],
      body_overflow = '''', storylaneUtils = True, reveal_keyboard = Some True\<rparr>"

definition object_prototype :: "string \<Rightarrow> string option" where
  \<comment> \<open>two of the names every object inherits\<close>
  "object_prototype =
     map_of [(''constructor'', ''function Object() { [native code] }''),
             (''toString'', ''function toString() { [native code] }'')]"

definition strict_engine :: "string \<Rightarrow> document \<Rightarrow> dom_error + iframe option" where
  \<comment> \<open>an engine that rejects every selector built from an id with special characters\<close>
  "strict_engine agentId d = Inl SyntaxError"

definition preloaded_document :: document where
  "preloaded_document = preloadStorylaneDemos object_prototype ''po-agent'' example_document"

definition swapped_document :: document where
  "swapped_document = after_swap strict_engine object_prototype ''po-agent'' preloaded_document"

definition quote_id :: string where
  \<comment> \<open>an agent id that is one double quote\<close>
  "quote_id = [CHR 0x22]"

section \<open>Rounding\<close>

text \<open>
  The exponent chosen by \<open>ulp_exp\<close> puts the significand between \<open>2 ^ 52\<close> and
  \<open>2 ^ 53\<close>; from this, rounding is monotone, keeps the sign, is zero only at zero, and
  is exact on the integers below \<open>2 ^ 53\<close>.
\<close>

lemma bitlen_powi_bounds:
  assumes "0 < (p::int)"
  shows "2 powi (bitlen p - 1) \<le> (of_int p :: rat)" "(of_int p :: rat) < 2 powi bitlen p"
proof -
  from assms have b1: "1 \<le> bitlen p"
    using bitlen_eq_zero_iff [of p] bitlen_nonneg [of p] by linarith
  from bitlen_bounds [OF assms] have lo: "2 ^ nat (bitlen p - 1) \<le> p" and hi: "p < 2 ^ nat (bitlen p)"
    by simp_all
  have "(2::rat) powi (bitlen p - 1) = 2 ^ nat (bitlen p - 1)"
    using b1 by (simp add: power_int_def)
  also have "\<dots> = of_int (2 ^ nat (bitlen p - 1))" by simp
  also have "\<dots> \<le> of_int p" using lo by (simp only: of_int_le_iff)
  finally show "2 powi (bitlen p - 1) \<le> (of_int p :: rat)" .
  have "(of_int p :: rat) < of_int (2 ^ nat (bitlen p))" using hi by (simp only: of_int_less_iff)
  also have "\<dots> = 2 powi bitlen p"
    using b1 by (simp add: power_int_def)
  finally show "(of_int p :: rat) < 2 powi bitlen p" .
qed

lemma ulp_exp_bounds:
  assumes "0 < a"
  shows "2 powi (ulp_exp a + 52) \<le> a" "a < 2 powi (ulp_exp a + 53)"
proof -
  obtain p q where pq: "quotient_of a = (p, q)" by (cases "quotient_of a")
  then have q: "0 < q" and a: "a = of_int p / of_int q"
    using quotient_of_denom_pos [of a p q] quotient_of_div [of a p q] by simp_all
  from assms a q have p: "0 < p"
    by (simp add: zero_less_divide_iff)
  define k where "k = bitlen p - bitlen q"
  have qr: "(0::rat) < of_int q" using q by simp
  have "a < 2 powi bitlen p / 2 powi (bitlen q - 1)"
    unfolding a using bitlen_powi_bounds [OF p] bitlen_powi_bounds [OF q] qr
    by (intro frac_less) (use p in auto)
  also have "\<dots> = 2 powi (k + 1)"
    by (simp add: k_def power_int_diff power_int_add)
  finally have hi: "a < 2 powi (k + 1)" .
  have "2 powi (bitlen p - 1) / 2 powi bitlen q \<le> a"
    unfolding a using bitlen_powi_bounds [OF p] bitlen_powi_bounds [OF q] qr
    by (intro frac_le) (use p in auto)
  moreover have "2 powi (bitlen p - 1) / 2 powi bitlen q = (2::rat) powi (k - 1)"
    by (simp add: k_def power_int_diff power_int_add)
  ultimately have lo: "2 powi (k - 1) \<le> a" by simp
  have e: "ulp_exp a = (if 2 powi k \<le> a then k else k - 1) - 52"
    by (simp add: ulp_exp_def pq k_def Let_def)
  show "2 powi (ulp_exp a + 52) \<le> a" using lo by (simp add: e)
  show "a < 2 powi (ulp_exp a + 53)" using hi by (auto simp: e not_le add.commute)
qed

lemma mantissa_bounds:
  assumes "0 < a"
  shows "2 ^ 52 \<le> a / 2 powi ulp_exp a" "a / 2 powi ulp_exp a < 2 ^ 53"
proof -
  have pos: "(0::rat) < 2 powi ulp_exp a" by simp
  have "2 ^ 52 * 2 powi ulp_exp a = (2::rat) powi (ulp_exp a + 52)"
    by (simp add: power_int_add)
  then show "2 ^ 52 \<le> a / 2 powi ulp_exp a"
    using ulp_exp_bounds(1) [OF assms] pos by (simp add: pos_le_divide_eq)
  have "2 ^ 53 * 2 powi ulp_exp a = (2::rat) powi (ulp_exp a + 53)"
    by (simp add: power_int_add)
  then show "a / 2 powi ulp_exp a < 2 ^ 53"
    using ulp_exp_bounds(2) [OF assms] pos by (simp add: pos_divide_less_eq)
qed

lemma ties_even_bounds: "of_int (ties_even m) \<le> m + 1 / 2" "m - 1 / 2 \<le> of_int (ties_even m)"
  by (auto simp: ties_even_def Let_def) linarith+

lemma ties_even_mono: "m \<le> n \<Longrightarrow> ties_even m \<le> ties_even n"
proof -
  assume mn: "m \<le> n"
  then have fl: "\<lfloor>m\<rfloor> \<le> \<lfloor>n\<rfloor>" by (rule floor_mono)
  show ?thesis
  proof (cases "\<lfloor>m\<rfloor> = \<lfloor>n\<rfloor>")
    case True
    with mn show ?thesis by (auto simp: ties_even_def Let_def)
  next
    case False
    with fl have "\<lfloor>m\<rfloor> + 1 \<le> \<lfloor>n\<rfloor>" by simp
    moreover have "ties_even m \<le> \<lfloor>m\<rfloor> + 1" by (auto simp: ties_even_def Let_def)
    moreover have "\<lfloor>n\<rfloor> \<le> ties_even n" by (auto simp: ties_even_def Let_def)
    ultimately show ?thesis by linarith
  qed
qed

lemma ties_even_of_int [simp]: "ties_even (of_int n) = n"
  by (simp add: ties_even_def)

lemma ties_even_ge: "of_int n \<le> m \<Longrightarrow> n \<le> ties_even m"
  using ties_even_mono [of "of_int n" m] by simp

lemma ties_even_le: "m \<le> of_int n \<Longrightarrow> ties_even m \<le> n"
  using ties_even_mono [of m "of_int n"] by simp

lemma pow2_less_cancel: "(2::rat) powi m < 2 powi n \<Longrightarrow> m < n"
  using power_int_increasing [of n m "2::rat"] by (cases "m < n") auto

lemma fl_pos_eq:
  "0 < x \<Longrightarrow> fl x = of_int (ties_even (x / 2 powi ulp_exp x)) * 2 powi ulp_exp x"
  by (simp add: fl_def Let_def)

lemma fl_pos_bounds:
  assumes "0 < x"
  shows "2 powi (ulp_exp x + 52) \<le> fl x" "fl x \<le> 2 powi (ulp_exp x + 53)"
proof -
  let ?e = "ulp_exp x"
  let ?t = "ties_even (x / 2 powi ?e)"
  have "of_int (2 ^ 52) \<le> x / 2 powi ?e" using mantissa_bounds(1) [OF assms] by simp
  then have "2 ^ 52 \<le> ?t" by (rule ties_even_ge)
  then have lo: "(2::rat) ^ 52 \<le> of_int ?t" by (metis of_int_le_iff of_int_numeral of_int_power)
  have "x / 2 powi ?e \<le> of_int (2 ^ 53)" using mantissa_bounds(2) [OF assms] by simp
  then have "?t \<le> 2 ^ 53" by (rule ties_even_le)
  then have hi: "of_int ?t \<le> (2::rat) ^ 53" by (metis of_int_le_iff of_int_numeral of_int_power)
  have "2 powi (?e + 52) = (2::rat) ^ 52 * 2 powi ?e" by (simp add: power_int_add)
  also have "\<dots> \<le> of_int ?t * 2 powi ?e" using lo by (intro mult_right_mono) simp_all
  finally show "2 powi (?e + 52) \<le> fl x" by (simp add: fl_pos_eq [OF assms])
  have "of_int ?t * 2 powi ?e \<le> (2::rat) ^ 53 * 2 powi ?e" using hi by (intro mult_right_mono) simp_all
  also have "\<dots> = 2 powi (?e + 53)" by (simp add: power_int_add)
  finally show "fl x \<le> 2 powi (?e + 53)" by (simp add: fl_pos_eq [OF assms])
qed

lemma fl_pos: "0 < x \<Longrightarrow> 0 < fl x"
  using fl_pos_bounds(1) [of x] zero_less_power_int [of "2::rat" "ulp_exp x + 52"] by linarith

lemma fl_zero [simp]: "fl 0 = 0"
  by (simp add: fl_def)

lemma fl_minus: "fl (- x) = - fl x"
  by (simp add: fl_def Let_def sgn_minus)

lemma fl_neg: "x < 0 \<Longrightarrow> fl x < 0"
  using fl_pos [of "- x"] by (simp add: fl_minus)

lemma fl_eq_0_iff [simp]: "fl x = 0 \<longleftrightarrow> x = 0"
  using fl_pos [of x] fl_neg [of x] by (cases "x = 0") (auto simp: neq_iff)

lemma fl_mono_pos:
  assumes "0 < x" "x \<le> y"
  shows "fl x \<le> fl y"
proof -
  from assms have y: "0 < y" by simp
  have "2 powi (ulp_exp x + 52) < (2::rat) powi (ulp_exp y + 53)"
    using ulp_exp_bounds(1) [OF assms(1)] ulp_exp_bounds(2) [OF y] assms(2) by linarith
  then have le: "ulp_exp x \<le> ulp_exp y" using pow2_less_cancel by fastforce
  show ?thesis
  proof (cases "ulp_exp x = ulp_exp y")
    case True
    have "x / 2 powi ulp_exp y \<le> y / 2 powi ulp_exp y"
      using assms(2) by (intro divide_right_mono) simp_all
    then have "ties_even (x / 2 powi ulp_exp y) \<le> ties_even (y / 2 powi ulp_exp y)"
      by (rule ties_even_mono)
    then have "(of_int (ties_even (x / 2 powi ulp_exp y)) :: rat) * 2 powi ulp_exp y
        \<le> of_int (ties_even (y / 2 powi ulp_exp y)) * 2 powi ulp_exp y"
      by (intro mult_right_mono) simp_all
    then show ?thesis by (simp add: fl_pos_eq [OF assms(1)] fl_pos_eq [OF y] True)
  next
    case False
    with le have "ulp_exp x + 53 \<le> ulp_exp y + 52" by simp
    then have "(2::rat) powi (ulp_exp x + 53) \<le> 2 powi (ulp_exp y + 52)"
      by (intro power_int_increasing) simp_all
    then show ?thesis
      using fl_pos_bounds(2) [OF assms(1)] fl_pos_bounds(1) [OF y] by linarith
  qed
qed

lemma fl_mono: "x \<le> y \<Longrightarrow> fl x \<le> fl y"
proof -
  assume xy: "x \<le> y"
  consider "0 < x" | "x = 0" | "x < 0" "y < 0" | "x < 0" "0 \<le> y" by linarith
  then show ?thesis
  proof cases
    case 1
    then show ?thesis using xy by (rule fl_mono_pos)
  next
    case 2
    then show ?thesis using xy fl_pos [of y] by (cases "y = 0") auto
  next
    case 3
    then have "fl (- y) \<le> fl (- x)" using xy by (intro fl_mono_pos) simp_all
    then show ?thesis by (simp add: fl_minus)
  next
    case 4
    then show ?thesis using fl_neg [of x] fl_pos [of y] by (cases "y = 0") auto
  qed
qed

lemma fl_exact:
  assumes "0 < x" "x / 2 powi ulp_exp x = of_int n"
  shows "fl x = x"
proof -
  have "fl x = x / 2 powi ulp_exp x * 2 powi ulp_exp x"
    using assms by (simp add: fl_pos_eq)
  then show ?thesis by simp
qed

lemma fl_of_nat:
  assumes "n < 2 ^ 53"
  shows "fl (of_nat n) = of_nat n"
proof (cases "n = 0")
  case True
  then show ?thesis by simp
next
  case False
  let ?x = "of_nat n :: rat"
  from False have pos: "0 < ?x" by simp
  have "?x < 2 ^ 53" using assms by (metis of_nat_less_iff of_nat_numeral of_nat_power)
  then have "2 powi (ulp_exp ?x + 52) < (2::rat) powi 53"
    using ulp_exp_bounds(1) [OF pos] by simp
  then have e: "ulp_exp ?x \<le> 0" using pow2_less_cancel by fastforce
  have "?x / 2 powi ulp_exp ?x = ?x * 2 ^ nat (- ulp_exp ?x)"
    using e by (simp add: power_int_def field_simps)
  also have "\<dots> = of_int (int n * 2 ^ nat (- ulp_exp ?x))" by simp
  finally show ?thesis by (rule fl_exact [OF pos])
qed

section \<open>Horizontal and vertical placement\<close>

lemma infoBoxWidth_measured [simp]:
  "infoBoxWidth (b\<lparr>visibility := v, opacity := ou\<rparr>) = infoBoxWidth b"
  by (simp add: infoBoxWidth_def)

lemma infoBoxHeight_measured [simp]:
  "infoBoxHeight (b\<lparr>visibility := v, opacity := ou\<rparr>) = infoBoxHeight b"
  by (simp add: infoBoxHeight_def)

lemma rightLimit_measured [simp]:
  "rightLimit win (b\<lparr>visibility := v, opacity := ou\<rparr>) = rightLimit win b"
  by (simp add: rightLimit_def)

lemma bottomLimit_measured [simp]:
  "bottomLimit win (b\<lparr>visibility := v, opacity := ou\<rparr>) = bottomLimit win b"
  by (simp add: bottomLimit_def)

lemma leftPos_measured [simp]:
  "leftPos win (b\<lparr>visibility := v, opacity := ou\<rparr>) r = leftPos win b r"
  by (simp add: leftPos_def)

lemma finalTop_measured [simp]:
  "finalTop win (b\<lparr>visibility := v, opacity := ou\<rparr>) r = finalTop win b r"
  by (simp add: finalTop_def)

lemma positioned:
  "\<exists>b'. positionInfoBoxGlobal win (Some b) (Some r) = Some b' \<and>
        style_left b' = fst (leftPos win b r) \<and>
        class_contains (snd (leftPos win b r)) (classList b') \<and>
        style_top b' = finalTop win b r \<and>
        position b' = ''fixed'' \<and> display b' = display b"
  by (auto simp: positionInfoBoxGlobal_def Let_def class_add_def class_contains_def
      split: prod.splits)

text \<open>Evaluating the examples.\<close>

lemma example_limits:
  "rightLimit wide_window example_box = 1190"
  "rightLimit narrow_window example_box = 774"
  "js_add (rect_right left_anchor) 10 = 310"
  "js_add (rect_right right_anchor) 10 = 910"
  "js_sub (js_sub (rect_left right_anchor) (infoBoxWidth example_box)) 10 = 450"
  "isInRightHalf narrow_window right_anchor"
  "\<not> isInRightHalf narrow_window left_anchor"
  "bottomLimit wide_window example_box = 710"
  "bottomLimit short_window tall_box = - 110"
  by code_simp+



text \<open>
  C2, as stated: the top coordinate always lies in
  [10, windowHeight - boxHeight - 10]. It fails when the window is too short for the box
  and its two margins: a box 700 high in a window 600 high is put at 10, above the upper
  end -110 of the interval.
\<close>

theorem vertical_interval_counterexample:
  "map_option style_top
     (positionInfoBoxGlobal short_window (Some tall_box) (Some left_anchor)) = Some 10 \<and>
   bottomLimit short_window tall_box = - 110"
  by code_simp

text \<open>
  C2, amended: the top coordinate is the anchor's vertical midpoint minus half the box
  height, clamped: it is never below 10, and it is at most windowHeight - boxHeight - 10
  whenever that bound is itself at least 10; in a shorter window it is exactly 10.
\<close>

theorem vertical_placement_clamped:
  "\<exists>b'. positionInfoBoxGlobal win (Some b) (Some r) = Some b' \<and>
     style_top b' =
       max 10 (min (bottomLimit win b)
         (js_sub (js_add (rect_top r) (js_div (rect_height r) 2)) (js_div (infoBoxHeight b) 2))) \<and>
     10 \<le> style_top b' \<and>
     (10 \<le> bottomLimit win b \<longrightarrow> style_top b' \<le> bottomLimit win b) \<and>
     (bottomLimit win b < 10 \<longrightarrow> style_top b' = 10)"
  using positioned [of win b r] by (auto simp: finalTop_def Let_def)

theorem vertical_placement_clamped_witness:
  "(\<exists>b'. positionInfoBoxGlobal wide_window (Some example_box) (Some left_anchor) = Some b' \<and>
      10 \<le> style_top b' \<and> style_top b' \<le> 710) \<and>
   (\<exists>b'. positionInfoBoxGlobal short_window (Some tall_box) (Some left_anchor) = Some b' \<and>
      style_top b' = 10)"
  using vertical_placement_clamped [of wide_window example_box left_anchor]
    vertical_placement_clamped [of short_window tall_box left_anchor]
  by (auto simp: example_limits)

section \<open>Resolving the info box\<close>

lemma split_on_nonempty [simp]: "split_on c s \<noteq> []"
  by (induction s) (auto split: list.splits)

lemma split_on_append_sep: "split_on c (xs @ c # ys) = split_on c xs @ split_on c ys"
proof (induction xs)
  case Nil
  then show ?case by simp
next
  case (Cons x xs)
  obtain seg segs where s: "split_on c xs = seg # segs"
    by (cases "split_on c xs") auto
  with Cons show ?case by simp
qed

lemma split_on_no_sep: "c \<notin> set s \<Longrightarrow> split_on c s = [s]"
  by (induction s) auto

lemma pop_split_on: "c \<notin> set ys \<Longrightarrow> pop (split_on c (xs @ c # ys)) = ys"
  by (simp add: pop_def split_on_append_sep split_on_no_sep)

lemma digit_char_decimal: "d < 10 \<Longrightarrow> decimal_digit (digit_char d)"
  unfolding digit_char_def decimal_digit_def by (rule nth_mem) simp

lemma decimal_nonempty [simp]: "decimal n \<noteq> []"
  by (subst decimal.simps) simp

lemma decimal_digits: "c \<in> set (decimal n) \<Longrightarrow> decimal_digit c"
proof (induction n arbitrary: c rule: decimal.induct)
  case (1 n)
  show ?case
  proof (cases "n < 10")
    case True
    then have "decimal n = [digit_char n]" by (subst decimal.simps) simp
    with "1.prems" have "c = digit_char n" by simp
    then show ?thesis using True by (simp only: digit_char_decimal)
  next
    case False
    then have "decimal n = decimal (n div 10) @ [digit_char (n mod 10)]"
      by (subst decimal.simps) simp
    with "1.prems" have "c \<in> set (decimal (n div 10) @ [digit_char (n mod 10)])"
      by simp
    then have "c \<in> set (decimal (n div 10)) \<or> c = digit_char (n mod 10)"
      by auto
    then show ?thesis
    proof
      assume "c \<in> set (decimal (n div 10))"
      then show ?thesis by (rule "1.IH" [OF False])
    next
      assume "c = digit_char (n mod 10)"
      then show ?thesis by (simp only: digit_char_decimal [of "n mod 10"] mod_less_divisor)
    qed
  qed
qed

lemma decimal_digit_cases:
  assumes "decimal_digit c"
  shows "is_digit 10 c" "\<not> is_js_space c" "c \<noteq> CHR ''-''" "c \<noteq> CHR ''+''"
    "c \<noteq> CHR ''x''" "c \<noteq> CHR ''X''"
proof -
  from assms have c: "c \<in> set ''0123456789''" by (simp only: decimal_digit_def)
  from c show "is_digit 10 c"
    by (simp only: list.set, elim insertE emptyE) (simp_all add: is_digit_def digit_table_def)
  from c show "\<not> is_js_space c"
    by (simp only: list.set, elim insertE emptyE) (simp_all add: is_js_space_def)
  from c show "c \<noteq> CHR ''-''" "c \<noteq> CHR ''+''" "c \<noteq> CHR ''x''" "c \<noteq> CHR ''X''"
    by (simp_all only: list.set, (elim insertE emptyE; simp)+)
qed

lemma digit_value_char:
  assumes "d < 10"
  shows "map_of digit_table (digit_char d) = Some d"
proof -
  from assms have "d \<in> {0, 1, 2, 3, 4, 5, 6, 7, 8, 9}" by auto
  then show ?thesis
    by (elim insertE emptyE) (simp_all add: digit_char_def digit_table_def)
qed

lemma digits_value_snoc:
  "digits_value r (ds @ [c]) =
     digits_value r ds * r + (case map_of digit_table c of None \<Rightarrow> 0 | Some v \<Rightarrow> v)"
  by (simp add: digits_value_def)

lemma digits_value_single:
  "digits_value r [c] = (case map_of digit_table c of None \<Rightarrow> 0 | Some v \<Rightarrow> v)"
  by (simp add: digits_value_def)

lemma digits_value_decimal: "digits_value 10 (decimal n) = n"
proof (induction n rule: decimal.induct)
  case (1 n)
  show ?case
  proof (cases "n < 10")
    case True
    then have "decimal n = [digit_char n]" by (subst decimal.simps) simp
    then show ?thesis using True by (simp add: digits_value_single digit_value_char)
  next
    case False
    then have "decimal n = decimal (n div 10) @ [digit_char (n mod 10)]"
      by (subst decimal.simps) simp
    then have "digits_value 10 (decimal n) =
        digits_value 10 (decimal (n div 10)) * 10 + n mod 10"
      by (simp add: digits_value_snoc digit_value_char)
    then show ?thesis using "1.IH" [OF False] by simp
  qed
qed

lemma decimal_hd: "decimal_digit (hd (decimal n))"
  using decimal_digits [of "hd (decimal n)" n] by simp

lemma decimal_no_space: "dropWhile is_js_space (decimal n) = decimal n"
  using decimal_digit_cases(2) [OF decimal_hd [of n]] by (cases "decimal n") simp_all

lemma decimal_all_digits: "takeWhile (is_digit 10) (decimal n) = decimal n"
  using decimal_digits [of _ n] decimal_digit_cases(1) by (simp add: takeWhile_eq_all_conv)

lemma decimal_no_prefix:
  "take 2 (decimal n) \<noteq> ''0x''" "take 2 (decimal n) \<noteq> ''0X''"
proof -
  have x: "CHR ''x'' \<notin> set (decimal n)" "CHR ''X'' \<notin> set (decimal n)"
    using decimal_digits [of _ n] decimal_digit_cases(5,6) by blast+
  show "take 2 (decimal n) \<noteq> ''0x''"
  proof
    assume "take 2 (decimal n) = ''0x''"
    then have "CHR ''x'' \<in> set (take 2 (decimal n))" by simp
    then show False using x(1) by (blast dest: in_set_takeD)
  qed
  show "take 2 (decimal n) \<noteq> ''0X''"
  proof
    assume "take 2 (decimal n) = ''0X''"
    then have "CHR ''X'' \<in> set (take 2 (decimal n))" by simp
    then show False using x(2) by (blast dest: in_set_takeD)
  qed
qed

lemma js_parseInt_decimal: "js_parseInt (decimal n) = Some (fl (of_nat n))"
proof -
  obtain c r where d: "decimal n = c # r" by (cases "decimal n") simp_all
  have "decimal_digit c" using decimal_hd [of n] by (simp add: d)
  then have c: "c \<noteq> CHR ''-''" "c \<noteq> CHR ''+''" by (rule decimal_digit_cases)+
  have sign: "(case decimal n of
        [] \<Rightarrow> (False, decimal n)
      | c # r \<Rightarrow> if c = CHR ''-'' then (True, r)
                 else if c = CHR ''+'' then (False, r) else (False, decimal n)) =
      (False, decimal n)"
    using c by (simp add: d)
  have radix: "(if take 2 (decimal n) = ''0x'' \<or> take 2 (decimal n) = ''0X''
        then (16, drop 2 (decimal n)) else (10::nat, decimal n)) = (10, decimal n)"
    using decimal_no_prefix [of n] by simp
  show ?thesis
    unfolding js_parseInt_def Let_def decimal_no_space sign prod.case radix decimal_all_digits
    by (simp add: digits_value_decimal)
qed

lemma number_to_string_nat:
  assumes "n < 2 ^ 53"
  shows "number_to_string big (Some (of_nat n)) = decimal n"
proof -
  from assms have "(of_nat n :: rat) < 2 ^ 53"
    by (metis of_nat_less_iff of_nat_numeral of_nat_power)
  then show ?thesis by (simp add: number_to_string_def)
qed

lemma fl_minus_one: "fl (- 1) = - 1"
  using fl_of_nat [of 1] by (simp add: fl_minus)

lemma decimal_one: "decimal (Suc 0) = ''1''"
  by (subst decimal.simps) (simp add: digit_char_def)

lemma number_to_string_minus_one: "number_to_string big (Some (- 1)) = ''-1''"
  by (simp add: number_to_string_def decimal_one)

lemma infoBoxId_decimal:
  assumes "N < 2 ^ 53"
  shows "infoBoxId big (''funnel-level-'' @ decimal N) =
           ''info-box-'' @ (if N = 0 then ''-1'' else decimal (N - 1))"
proof -
  have "CHR ''-'' \<notin> set (decimal N)"
    using decimal_digits [of _ N] decimal_digit_cases(3) by blast
  then have "pop (split_on CHR ''-'' (''funnel-level'' @ CHR ''-'' # decimal N)) = decimal N"
    by (rule pop_split_on)
  then have p: "pop (split_on CHR ''-'' (''funnel-level-'' @ decimal N)) = decimal N" by simp
  have num: "js_parseInt (decimal N) = Some (of_nat N)"
    by (simp add: js_parseInt_decimal fl_of_nat [OF assms])
  show ?thesis
  proof (cases "N = 0")
    case True
    then show ?thesis
      unfolding infoBoxId_def Let_def p num
      by (simp add: js_sub_def fl_minus_one number_to_string_minus_one)
  next
    case False
    then have eq: "(of_nat N :: rat) - 1 = of_nat (N - 1)" by (simp add: of_nat_diff)
    have small: "N - 1 < 2 ^ 53" using assms by simp
    then have r: "fl (of_nat (N - 1)) = (of_nat (N - 1) :: rat)" by (rule fl_of_nat)
    from small have "number_to_string big (Some (of_nat (N - 1))) = decimal (N - 1)"
      by (rule number_to_string_nat)
    then show ?thesis
      unfolding infoBoxId_def Let_def p num option.map js_sub_def eq r using False
      by simp
  qed
qed

section \<open>The hover handlers\<close>

lemma class_contains_add [simp]:
  "class_contains c (class_add x cs) = (c = x \<or> class_contains c cs)"
  by (auto simp: class_contains_def class_add_def)

lemma class_contains_remove [simp]:
  "class_contains c (class_remove x cs) = (c \<noteq> x \<and> class_contains c cs)"
  by (auto simp: class_contains_def class_remove_def)

lemma positioned_classes:
  assumes "positionInfoBoxGlobal win (Some b) (Some r) = Some b'"
  shows "display b' = display b" "position b' = ''fixed''"
    "class_contains c (classList b') =
       (c = snd (leftPos win b r) \<or>
        c \<noteq> ''right-side'' \<and> c \<noteq> ''left-side'' \<and> class_contains c (classList b))"
  using assms by (auto simp: positionInfoBoxGlobal_def Let_def split: prod.splits)

lemma getElementById_setElement [simp]:
  "getElementById (setElement i b s) j = (if j = i then Some b else getElementById s j)"
  by (simp add: getElementById_def setElement_def update_conv')

lemma getElementById_setTimeout [simp]:
  "getElementById (setTimeout a s) j = getElementById s j"
  by (simp add: getElementById_def setTimeout_def)

lemma getElementById_timers [simp]:
  "getElementById (s\<lparr>timers := ts\<rparr>) j = getElementById s j"
  by (simp add: getElementById_def)

lemma getElementById_now [simp]:
  "getElementById (s\<lparr>now := t\<rparr>) j = getElementById s j"
  by (simp add: getElementById_def)

lemma level_mouseenter_display:
  assumes "getElementById s i = Some b" "getElementById (level_mouseenter big win classes r s) i = Some b'"
  shows "display b' = display b \<or> display b' = ''block''"
  using assms
  by (auto simp: level_mouseenter_def Let_def dest: positioned_classes(1)
      split: option.splits if_splits)

lemma handlers_display:
  assumes "getElementById s i = Some b"
  shows "getElementById (level_mouseleave big classes s) i = Some b"
    "getElementById (box_mouseenter j s) i = Some b' \<Longrightarrow> display b' = display b"
    "getElementById (box_mouseleave j s) i = Some b' \<Longrightarrow> display b' = display b"
    "getElementById (close_click j s) i = Some b' \<Longrightarrow> display b' = display b"
    "getElementById (stage1 h j s) i = Some b' \<Longrightarrow> display b' = display b"
  using assms
  by (auto simp: level_mouseleave_def box_mouseenter_def box_mouseleave_def close_click_def
      stage1_def Let_def split: option.splits if_splits)

lemma hide_check_display:
  assumes "getElementById s i = Some b" "getElementById (hide_check j s) i = Some b'"
  shows "display b' = display b \<or>
         j = i \<and> \<not> class_contains ''hover-visible'' (classList b) \<and>
                 \<not> class_contains ''active'' (classList b)"
  using assms by (auto simp: hide_check_def split: option.splits if_splits)

lemma fire_display:
  assumes "getElementById s i = Some b" "getElementById (fire n h s) i = Some b'"
  shows "display b' = display b \<or>
         n < length (timers s) \<and> due s (timers s ! n) \<and> action (timers s ! n) = HideCheck i \<and>
         \<not> class_contains ''hover-visible'' (classList b) \<and>
         \<not> class_contains ''active'' (classList b)"
proof (cases "n < length (timers s) \<and> due s (timers s ! n)")
  case False
  with assms show ?thesis by (auto simp: fire_def)
next
  case True
  let ?s = "s\<lparr>timers := drop_nth n (timers s)\<rparr>"
  have b: "getElementById ?s i = Some b" using assms(1) by simp
  show ?thesis
  proof (cases "action (timers s ! n)")
    case (Stage1 j)
    with True assms(2) have "getElementById (stage1 h j ?s) i = Some b'" by (simp add: fire_def)
    then show ?thesis using handlers_display(5) [OF b] by simp
  next
    case (HideCheck j)
    with True assms(2) have "getElementById (hide_check j ?s) i = Some b'" by (simp add: fire_def)
    then show ?thesis using hide_check_display [OF b] True HideCheck by auto
  qed
qed

text \<open>
  C5. A step takes a box out of the layout only as the 300 ms callback of a timer whose
  delay has passed, and only when the box carries neither \<open>hover-visible\<close> nor
  \<open>active\<close> at that moment.
\<close>

theorem hidden_only_by_due_hide_check:
  assumes "getElementById s i = Some b" and "display b \<noteq> ''none''"
    and "getElementById (step big e s) i = Some b'" and "display b' = ''none''"
  shows "\<exists>n hovered. e = Fire n hovered \<and> n < length (timers s) \<and>
           action (timers s ! n) = HideCheck i \<and>
           created (timers s ! n) + 300 \<le> now s \<and>
           \<not> class_contains ''hover-visible'' (classList b) \<and>
           \<not> class_contains ''active'' (classList b)"
proof (cases e)
  case (LevelEnter classes r win)
  with assms level_mouseenter_display [OF assms(1), of big win classes r b'] show ?thesis by auto
next
  case (LevelLeave classes)
  with assms handlers_display(1) [OF assms(1), of big classes] show ?thesis by auto
next
  case (BoxEnter j)
  with assms handlers_display(2) [OF assms(1), of j b'] show ?thesis by auto
next
  case (BoxLeave j)
  with assms handlers_display(3) [OF assms(1), of j b'] show ?thesis by auto
next
  case (CloseClick j)
  with assms handlers_display(4) [OF assms(1), of j b'] show ?thesis by auto
next
  case (Elapse ms)
  with assms show ?thesis by auto
next
  case (Fire n h)
  with assms fire_display [OF assms(1), of n h b'] show ?thesis
    by (auto simp: due_def)
qed

lemma pending_page_facts:
  "getElementById pending_page ''info-box-2'' = Some shown_box"
  "display shown_box \<noteq> ''none''"
  "getElementById (step no_exponent (Fire 0 False) pending_page) ''info-box-2'' =
     Some (shown_box\<lparr>display := ''none''\<rparr>)"
  "display shown_box = ''block''"
  by code_simp+

theorem hidden_only_by_due_hide_check_witness:
  "getElementById pending_page ''info-box-2'' = Some shown_box \<and>
   display shown_box = ''block'' \<and>
   map_option display
     (getElementById (step no_exponent (Fire 0 False) pending_page) ''info-box-2'') = Some ''none'' \<and>
   (\<exists>n hovered. Fire 0 False = Fire n hovered \<and> n < length (timers pending_page) \<and>
      action (timers pending_page ! n) = HideCheck ''info-box-2'' \<and>
      created (timers pending_page ! n) + 300 \<le> now pending_page \<and>
      \<not> class_contains ''hover-visible'' (classList shown_box) \<and>
      \<not> class_contains ''active'' (classList shown_box))"
proof -
  have hidden: "display (shown_box\<lparr>display := ''none''\<rparr>) = ''none''" by simp
  note timer = hidden_only_by_due_hide_check [OF pending_page_facts(1,2,3) hidden]
  have after: "map_option display
      (getElementById (step no_exponent (Fire 0 False) pending_page) ''info-box-2'') = Some ''none''"
    unfolding pending_page_facts(3) by simp
  show ?thesis
    by (intro conjI) (rule pending_page_facts(1) pending_page_facts(4) after timer)+
qed

text \<open>
  C6. The claim holds for the box's own handlers and fails for the funnel level. After
  the pointer has left the level and come back, the 200 ms callback of the mouseleave
  still removes \<open>hover-visible\<close>, because it only asks whether the box is hovered, and
  the 300 ms callback then hides the box while the pointer rests on the level.
\<close>

theorem stale_level_timer_hides_box:
  "map_option (\<lambda>b. (display b, class_contains ''hover-visible'' (classList b)))
     (getElementById (run no_exponent (take 5 leave_and_return) example_page) ''info-box-2'') =
     Some (''block'', True) \<and>
   map_option display
     (getElementById (run no_exponent leave_and_return example_page) ''info-box-2'') =
     Some ''none''"
  by code_simp

lemma box_timer_is_stale:
  "map_option display
     (getElementById (run no_exponent leave_and_return_box example_page) ''info-box-2'') =
     Some ''block''"
  by code_simp

text \<open>
  C9, as stated: a malformed class never mutates a tooltip. The class
  \<open>funnel-level-3abc\<close> is read by \<open>parseInt\<close> as 3, and the hidden box
  \<open>info-box-2\<close> is shown.
\<close>

theorem malformed_class_counterexample:
  "map_option display (getElementById example_page ''info-box-2'') = Some ''none'' \<and>
   map_option display
     (getElementById
        (level_mouseenter no_exponent wide_window [''funnel-level'', ''funnel-level-3abc'']
           left_anchor example_page) ''info-box-2'') = Some ''block''"
  by code_simp



lemma level_mouseenter_found:
  assumes "class_contains ''funnel-level'' classes"
    and "find (\<lambda>cls. startsWith cls ''funnel-level-'') classes = Some c"
    and "infoBoxId big c = i" and "getElementById s i = Some b"
    and "positionInfoBoxGlobal win
           (Some (b\<lparr>display := ''block'',
                    classList := class_add ''hover-visible'' (classList b)\<rparr>)) (Some r) = Some b'"
  shows "level_mouseenter big win classes r s = setElement i b' s"
  using assms by (simp add: level_mouseenter_def Let_def)

text \<open>
  C9, amended. The handler runs on an anchor of class \<open>funnel-level\<close> and takes the
  first class that starts with \<open>funnel-level-\<close>. When that class is
  \<open>funnel-level-N\<close> for a decimal N below \<open>2 ^ 53\<close> and the element
  \<open>info-box-(N-1)\<close> exists, the element is displayed as a block, gets
  \<open>hover-visible\<close> and is positioned, and nothing else changes. When the anchor is not
  of class \<open>funnel-level\<close>, when no class starts with \<open>funnel-level-\<close>, or when no
  element has the id derived from the first such class, the page is unchanged. A suffix
  is read the way \<open>parseInt\<close> reads it.
\<close>

theorem level_mouseenter_resolves:
  "(\<not> class_contains ''funnel-level'' classes \<longrightarrow>
      level_mouseenter big win classes r s = s) \<and>
   (find (\<lambda>cls. startsWith cls ''funnel-level-'') classes = None \<longrightarrow>
      level_mouseenter big win classes r s = s) \<and>
   (\<forall>c. find (\<lambda>cls. startsWith cls ''funnel-level-'') classes = Some c \<and>
        getElementById s (infoBoxId big c) = None \<longrightarrow>
      level_mouseenter big win classes r s = s) \<and>
   (\<forall>N b. class_contains ''funnel-level'' classes \<and>
        find (\<lambda>cls. startsWith cls ''funnel-level-'') classes =
          Some (''funnel-level-'' @ decimal N) \<and> N < 2 ^ 53 \<and>
        getElementById s (''info-box-'' @ (if N = 0 then ''-1'' else decimal (N - 1))) = Some b \<longrightarrow>
      (\<exists>b'. positionInfoBoxGlobal win
               (Some (b\<lparr>display := ''block'',
                        classList := class_add ''hover-visible'' (classList b)\<rparr>)) (Some r) = Some b' \<and>
            level_mouseenter big win classes r s =
              setElement (''info-box-'' @ (if N = 0 then ''-1'' else decimal (N - 1))) b' s \<and>
            display b' = ''block'' \<and> class_contains ''hover-visible'' (classList b') \<and>
            position b' = ''fixed''))"
proof (intro conjI allI impI)
  assume "\<not> class_contains ''funnel-level'' classes"
  then show "level_mouseenter big win classes r s = s"
    by (simp add: level_mouseenter_def)
next
  assume "find (\<lambda>cls. startsWith cls ''funnel-level-'') classes = None"
  then show "level_mouseenter big win classes r s = s"
    by (simp add: level_mouseenter_def)
next
  fix c
  assume "find (\<lambda>cls. startsWith cls ''funnel-level-'') classes = Some c \<and>
    getElementById s (infoBoxId big c) = None"
  then show "level_mouseenter big win classes r s = s"
    by (simp add: level_mouseenter_def)
next
  fix N and b :: info_box
  define c where "c = ''funnel-level-'' @ decimal N"
  define i where "i = ''info-box-'' @ (if N = 0 then ''-1'' else decimal (N - 1))"
  define shown where
    "shown = b\<lparr>display := ''block'', classList := class_add ''hover-visible'' (classList b)\<rparr>"
  assume "class_contains ''funnel-level'' classes \<and>
      find (\<lambda>cls. startsWith cls ''funnel-level-'') classes =
      Some (''funnel-level-'' @ decimal N) \<and> N < 2 ^ 53 \<and>
      getElementById s (''info-box-'' @ (if N = 0 then ''-1'' else decimal (N - 1))) = Some b"
  then have level: "class_contains ''funnel-level'' classes"
    and f: "find (\<lambda>cls. startsWith cls ''funnel-level-'') classes = Some c"
    and N: "N < 2 ^ 53" and b: "getElementById s i = Some b"
    unfolding c_def i_def by blast+
  have id: "infoBoxId big c = i"
    unfolding c_def i_def by (rule infoBoxId_decimal [OF N])
  obtain b' where b': "positionInfoBoxGlobal win (Some shown) (Some r) = Some b'"
    using positioned [of win shown r] by blast
  have moved: "level_mouseenter big win classes r s = setElement i b' s"
    by (rule level_mouseenter_found [OF level f id b b' [unfolded shown_def]])
  have "display b' = ''block''" "position b' = ''fixed''"
    "class_contains ''hover-visible'' (classList b')"
    using positioned_classes [OF b'] by (simp_all add: shown_def)
  with b' moved show "\<exists>b'. positionInfoBoxGlobal win
       (Some (b\<lparr>display := ''block'',
                classList := class_add ''hover-visible'' (classList b)\<rparr>)) (Some r) = Some b' \<and>
      level_mouseenter big win classes r s =
        setElement (''info-box-'' @ (if N = 0 then ''-1'' else decimal (N - 1))) b' s \<and>
      display b' = ''block'' \<and> class_contains ''hover-visible'' (classList b') \<and>
      position b' = ''fixed''"
    unfolding shown_def i_def by (intro exI [of _ b'] conjI)
qed

lemma level_3_facts:
  "find (\<lambda>cls. startsWith cls ''funnel-level-'') [''funnel-level''] = None"
  "find (\<lambda>cls. startsWith cls ''funnel-level-'') level_3 = Some (''funnel-level-'' @ decimal 3)"
  "getElementById example_page (''info-box-'' @ (if (3::nat) = 0 then ''-1'' else decimal (3 - 1))) =
     Some example_box"
  "''info-box-'' @ (if (3::nat) = 0 then ''-1'' else decimal (3 - 1)) = ''info-box-2''"
  "class_contains ''funnel-level'' level_3"
  "\<not> class_contains ''funnel-level'' [''funnel-level-3'']"
  by code_simp+

lemma three_small: "(3::nat) < 2 ^ 53"
  by simp

theorem level_mouseenter_resolves_witness:
  "level_mouseenter no_exponent wide_window [''funnel-level''] left_anchor example_page =
     example_page \<and>
   level_mouseenter no_exponent wide_window [''funnel-level-3''] left_anchor example_page =
     example_page \<and>
   (\<exists>b'. level_mouseenter no_exponent wide_window level_3 left_anchor example_page =
           setElement ''info-box-2'' b' example_page \<and>
         display b' = ''block'' \<and> class_contains ''hover-visible'' (classList b') \<and>
         position b' = ''fixed'')"
proof (intro conjI)
  show "level_mouseenter no_exponent wide_window [''funnel-level''] left_anchor example_page =
      example_page"
    by (rule level_mouseenter_resolves [THEN conjunct2, THEN conjunct1, THEN mp,
          OF level_3_facts(1)])
  show "level_mouseenter no_exponent wide_window [''funnel-level-3''] left_anchor example_page =
      example_page"
    by (rule level_mouseenter_resolves [THEN conjunct1, THEN mp, OF level_3_facts(6)])
  obtain b' where
    "level_mouseenter no_exponent wide_window level_3 left_anchor example_page =
       setElement (''info-box-'' @ (if (3::nat) = 0 then ''-1'' else decimal (3 - 1))) b' example_page"
    "display b' = ''block''" "class_contains ''hover-visible'' (classList b')"
    "position b' = ''fixed''"
    using level_mouseenter_resolves [of level_3 no_exponent wide_window left_anchor example_page,
        THEN conjunct2, THEN conjunct2, THEN conjunct2, THEN spec, THEN spec, THEN mp,
        OF conjI [OF level_3_facts(5) conjI [OF level_3_facts(2) conjI [OF three_small level_3_facts(3)]]]]
    by (elim exE conjE)
  then show "\<exists>b'. level_mouseenter no_exponent wide_window level_3 left_anchor example_page =
           setElement ''info-box-2'' b' example_page \<and>
         display b' = ''block'' \<and> class_contains ''hover-visible'' (classList b') \<and>
         position b' = ''fixed''"
    unfolding level_3_facts(4) by (intro exI [of _ b'] conjI)
qed

section \<open>The preloader\<close>

lemma known_agent_cases:
  assumes "known_agent a"
  shows "a \<noteq> []" "\<exists>url. map_of storylaneUrls a = Some url"
    "\<exists>modalId. map_of modalMap a = Some modalId"
proof -
  from assms have a: "a = ''po-agent'' \<or> a = ''onboarding-agent'' \<or>
      a = ''interview-agent'' \<or> a = ''claim-agent''"
    by (simp add: known_agent_def storylaneUrls_def)
  then show "a \<noteq> []" by auto
  from a show "\<exists>url. map_of storylaneUrls a = Some url"
    by (elim disjE) (simp_all add: storylaneUrls_def)
  from a show "\<exists>modalId. map_of modalMap a = Some modalId"
    by (elim disjE) (simp_all add: modalMap_def)
qed

lemma unknown_agent_url: "\<not> known_agent a \<Longrightarrow> map_of storylaneUrls a = None"
  by (simp add: known_agent_def map_of_eq_None_iff)

lemma preloaded_update:
  "preloaded inh (d\<lparr>body_frames := fs, status := AList.update a True (status d)\<rparr>) b =
     (b = a \<or> preloaded inh d b)"
  by (simp add: preloaded_def update_conv')

lemma preload_unchanged_or_loaded:
  "preloadStorylaneDemos inh a d = d \<or> preloaded inh (preloadStorylaneDemos inh a d) a"
  by (auto simp: preloadStorylaneDemos_def preloaded_update split: option.splits)

lemma preload_when_loaded:
  "preloaded inh d a \<Longrightarrow> preloadStorylaneDemos inh a d = d"
  by (simp add: preloadStorylaneDemos_def)

lemma preload_idempotent:
  "preloadStorylaneDemos inh a (preloadStorylaneDemos inh a d) = preloadStorylaneDemos inh a d"
  using preload_unchanged_or_loaded [of inh a d] by (auto simp: preload_when_loaded)

lemma preload_fresh:
  assumes "known_agent a" "\<not> preloaded inh d a"
  shows "\<exists>url. map_of storylaneUrls a = Some url \<and>
           preloadStorylaneDemos inh a d =
             d\<lparr>body_frames := body_frames d @ [preloadFrame url a],
               status := AList.update a True (status d)\<rparr>"
  using assms known_agent_cases(1,2) [OF assms(1)]
  by (auto simp: preloadStorylaneDemos_def lookup_def)

lemma preload_keeps:
  "preloaded inh d b \<Longrightarrow> preloaded inh (preloadStorylaneDemos inh a d) b"
  by (auto simp: preloadStorylaneDemos_def preloaded_update split: option.splits)

lemma set_element_fields [simp]:
  "status (set_element i e d) = status d"
  "body_frames (set_element i e d) = body_frames d"
  "storylaneUtils (set_element i e d) = storylaneUtils d"
  by (simp_all add: set_element_def)

lemma swap_cases:
  "(\<exists>e. swapPreloadedIframe css inh a d = Inl e) \<or>
   swapPreloadedIframe css inh a d = Inr (False, d) \<or>
   (\<exists>f modalId modal frames.
      query_preloader css d a = Inr (Some f) \<and> lookup inh modalMap a = Some modalId \<and>
      find_element d modalId = Some modal \<and> sl_embed modal = Some frames \<and>
      swapPreloadedIframe css inh a d =
        Inr (True, set_element modalId
                     (modal\<lparr>sl_embed := Some (drop 1 frames @ [cloneFrame f])\<rparr>) d))"
proof (cases "query_preloader css d a")
  case (Inl e)
  then show ?thesis by (simp add: swapPreloadedIframe_def)
next
  case (Inr found)
  show ?thesis
  proof (cases found)
    case None
    with Inr show ?thesis by (simp add: swapPreloadedIframe_def)
  next
    case (Some f)
    have removed: "(case frames of [] \<Rightarrow> [] | existingIframe # others \<Rightarrow> others) = drop 1 frames"
      for frames :: "iframe list"
      by (cases frames) simp_all
    from Inr Some show ?thesis
      by (simp add: swapPreloadedIframe_def Let_def removed split: option.splits)
  qed
qed

lemma swap_fields:
  "status (after_swap css inh a d) = status d"
  "body_frames (after_swap css inh a d) = body_frames d"
  using swap_cases [of css inh a d] by (auto simp: after_swap_def)

lemma activate_modal_fields [simp]:
  "status (activate_modal i used d) = status d"
  "body_frames (activate_modal i used d) = body_frames d"
  by (simp_all add: activate_modal_def Let_def split: option.splits)

lemma close_fields [simp]:
  "status (closeStoryLaneModals d) = status d"
  "body_frames (closeStoryLaneModals d) = body_frames d"
  "storylaneUtils (closeStoryLaneModals d) = storylaneUtils d"
  by (simp_all add: closeStoryLaneModals_def)

lemma show_cases:
  "snd (showStoryLaneModal css inh a d0) = closeStoryLaneModals d0 \<or>
   snd (showStoryLaneModal css inh a d0) = closeStoryLaneModals d0\<lparr>body_overflow := ''hidden''\<rparr> \<or>
   (\<exists>modalId used.
      lookup inh modalMap a = Some modalId \<and>
      snd (showStoryLaneModal css inh a d0) =
        activate_modal modalId used
          (if storylaneUtils d0
           then after_swap css inh a (closeStoryLaneModals d0\<lparr>body_overflow := ''hidden''\<rparr>)
           else closeStoryLaneModals d0\<lparr>body_overflow := ''hidden''\<rparr>))"
proof (cases "lookup inh modalMap a")
  case None
  then show ?thesis by (simp add: showStoryLaneModal_def)
next
  case (Some modalId)
  show ?thesis
  proof (cases "find_element (closeStoryLaneModals d0) modalId")
    case None
    with Some show ?thesis by (simp add: showStoryLaneModal_def)
  next
    case found: (Some m)
    let ?d1 = "closeStoryLaneModals d0\<lparr>body_overflow := ''hidden''\<rparr>"
    show ?thesis
    proof (cases "storylaneUtils d0")
      case False
      with Some found have "snd (showStoryLaneModal css inh a d0) = activate_modal modalId False ?d1"
        by (simp add: showStoryLaneModal_def)
      with Some False show ?thesis by auto
    next
      case True
      show ?thesis
      proof (cases "swapPreloadedIframe css inh a ?d1")
        case (Inl e)
        with Some found True have "snd (showStoryLaneModal css inh a d0) = ?d1"
          by (simp add: showStoryLaneModal_def)
        then show ?thesis by simp
      next
        case (Inr r)
        with Some found True have
          "snd (showStoryLaneModal css inh a d0) = activate_modal modalId (fst r) (snd r)"
          by (simp add: showStoryLaneModal_def case_prod_beta)
        moreover have "after_swap css inh a ?d1 = snd r" using Inr by (simp add: after_swap_def)
        ultimately show ?thesis using Some True by auto
      qed
    qed
  qed
qed

lemma show_fields:
  "status (snd (showStoryLaneModal css inh a d)) = status d"
  "body_frames (snd (showStoryLaneModal css inh a d)) = body_frames d"
  using show_cases [of css inh a d]
    swap_fields [of css inh a "closeStoryLaneModals d\<lparr>body_overflow := ''hidden''\<rparr>"]
  by auto

lemma preloaded_cong:
  "status d' = status d \<Longrightarrow> preloaded inh d' a = preloaded inh d a"
  by (simp add: preloaded_def)

lemma do_call_status:
  "status (do_call css inh c d) = status d \<or> (\<exists>b. c = Preload b)"
  by (cases c) (simp_all add: swap_fields show_fields)

lemma do_call_keeps:
  assumes "preloaded inh d a"
  shows "preloaded inh (do_call css inh c d) a"
proof (cases c)
  case (Preload b)
  with assms show ?thesis by (simp add: preload_keeps)
next
  case (Swap b)
  have "status (do_call css inh c d) = status d" using Swap by (simp add: swap_fields)
  from preloaded_cong [OF this] show ?thesis using assms by simp
next
  case (Activate b)
  have "status (do_call css inh c d) = status d" using Activate by (simp add: show_fields)
  from preloaded_cong [OF this] show ?thesis using assms by simp
next
  case Deactivate
  have "status (do_call css inh c d) = status d" using Deactivate by simp
  from preloaded_cong [OF this] show ?thesis using assms by simp
qed

lemma do_calls_snoc: "do_calls css inh (cs @ [c]) d = do_call css inh c (do_calls css inh cs d)"
  by (simp add: do_calls_def)

lemma do_calls_keep:
  "preloaded inh d a \<Longrightarrow> preloaded inh (do_calls css inh cs d) a"
  by (induction cs rule: rev_induct) (simp_all add: do_calls_snoc do_call_keeps do_calls_def)


lemma is_preloader_preloadFrame [simp]: "is_preloader a (preloadFrame url a)"
  by (simp add: is_preloader_def preloadFrame_def class_contains_def)

text \<open>
  C3. For a known agent id, a second call of \<open>preloadStorylaneDemos\<close> changes nothing.
  Two calls in a row attach exactly one iframe for the key when it was not loaded before
  and none when it was; after the first call the key reads as loaded, and it still does
  after any further calls of the four functions.
\<close>

theorem preload_twice_attaches_once:
  assumes "known_agent agentId"
  shows "preloadStorylaneDemos inh agentId (preloadStorylaneDemos inh agentId d) =
           preloadStorylaneDemos inh agentId d \<and>
         (\<not> preloaded inh d agentId \<longrightarrow>
            (\<exists>url. map_of storylaneUrls agentId = Some url \<and>
               body_frames (preloadStorylaneDemos inh agentId (preloadStorylaneDemos inh agentId d)) =
                 body_frames d @ [preloadFrame url agentId]) \<and>
            length (filter (is_preloader agentId)
              (body_frames (preloadStorylaneDemos inh agentId (preloadStorylaneDemos inh agentId d)))) =
              Suc (length (filter (is_preloader agentId) (body_frames d)))) \<and>
         (preloaded inh d agentId \<longrightarrow>
            body_frames (preloadStorylaneDemos inh agentId (preloadStorylaneDemos inh agentId d)) =
              body_frames d) \<and>
         (\<forall>cs. preloaded inh (do_calls css inh cs (preloadStorylaneDemos inh agentId d)) agentId)"
proof -
  let ?once = "preloadStorylaneDemos inh agentId d"
  have idem: "preloadStorylaneDemos inh agentId ?once = ?once" by (rule preload_idempotent)
  have fresh: "\<not> preloaded inh d agentId \<longrightarrow>
      (\<exists>url. map_of storylaneUrls agentId = Some url \<and>
         body_frames ?once = body_frames d @ [preloadFrame url agentId]) \<and>
      length (filter (is_preloader agentId) (body_frames ?once)) =
        Suc (length (filter (is_preloader agentId) (body_frames d)))"
  proof
    assume "\<not> preloaded inh d agentId"
    from preload_fresh [OF assms this] obtain url where
      url: "map_of storylaneUrls agentId = Some url"
      and once: "?once = d\<lparr>body_frames := body_frames d @ [preloadFrame url agentId],
                          status := AList.update agentId True (status d)\<rparr>"
      by blast
    have frames: "body_frames ?once = body_frames d @ [preloadFrame url agentId]"
      by (subst once) simp
    show "(\<exists>url. map_of storylaneUrls agentId = Some url \<and>
         body_frames ?once = body_frames d @ [preloadFrame url agentId]) \<and>
      length (filter (is_preloader agentId) (body_frames ?once)) =
        Suc (length (filter (is_preloader agentId) (body_frames d)))"
      using url frames by simp
  qed
  have loaded: "preloaded inh d agentId \<longrightarrow> body_frames ?once = body_frames d"
    by (simp add: preload_when_loaded)
  have now_loaded: "preloaded inh ?once agentId"
  proof (cases "preloaded inh d agentId")
    case True
    then show ?thesis by (simp add: preload_when_loaded)
  next
    case False
    from preload_fresh [OF assms this] obtain url where
      "?once = d\<lparr>body_frames := body_frames d @ [preloadFrame url agentId],
                   status := AList.update agentId True (status d)\<rparr>"
      by blast
    then show ?thesis by (simp add: preloaded_update)
  qed
  have later: "\<forall>cs. preloaded inh (do_calls css inh cs ?once) agentId"
    using do_calls_keep [OF now_loaded] by blast
  show ?thesis
    unfolding idem using fresh loaded later by (intro conjI) (rule refl)
qed

lemma po_agent_facts:
  "known_agent ''po-agent''"
  "\<not> preloaded object_prototype example_document ''po-agent''"
  "body_frames example_document = []"
  "map_of storylaneUrls ''po-agent'' =
     Some ''https://app.storylane.io/demo/d9xx3md7cyhg?embed=inline''"
  by code_simp+

theorem preload_twice_attaches_once_witness:
  "preloadStorylaneDemos object_prototype ''po-agent''
     (preloadStorylaneDemos object_prototype ''po-agent'' example_document) =
     preloadStorylaneDemos object_prototype ''po-agent'' example_document \<and>
   body_frames (preloadStorylaneDemos object_prototype ''po-agent''
     (preloadStorylaneDemos object_prototype ''po-agent'' example_document)) =
     [preloadFrame ''https://app.storylane.io/demo/d9xx3md7cyhg?embed=inline'' ''po-agent''] \<and>
   preloaded object_prototype
     (do_calls strict_engine object_prototype [Activate ''po-agent'', Deactivate, Preload ''po-agent'']
        (preloadStorylaneDemos object_prototype ''po-agent'' example_document)) ''po-agent''"
  using preload_twice_attaches_once [OF po_agent_facts(1), of object_prototype example_document strict_engine]
    po_agent_facts(2,3,4)
  by auto



lemma initial_keys_known: "status d = initial_status \<Longrightarrow> status_keys_known d"
  by (simp add: status_keys_known_def initial_status_def known_agent_def storylaneUrls_def)

lemma status_key_known:
  assumes "status_keys_known d" "map_of (status d) a = Some v"
  shows "known_agent a"
proof -
  from assms(2) have "a \<in> set (map fst (status d))"
    by (metis map_of_eq_None_iff option.distinct(1) set_map)
  with assms(1) show ?thesis by (auto simp: status_keys_known_def list_all_iff)
qed

lemma keys_update:
  "P k \<Longrightarrow> list_all P (map fst al) \<Longrightarrow> list_all P (map fst (AList.update k v al))"
  by (simp add: update_keys)

lemma preload_unknown:
  assumes "status_keys_known d" "\<not> known_agent a"
  shows "preloadStorylaneDemos inh a d = d"
proof (cases "a = [] \<or> preloaded inh d a")
  case True
  then show ?thesis by (simp add: preloadStorylaneDemos_def)
next
  case False
  have own: "map_of (status d) a = None"
    using status_key_known [OF assms(1), of a] assms(2) by (cases "map_of (status d) a") auto
  with False have "inh a = None" by (simp add: preloaded_def)
  then have "lookup inh storylaneUrls a = None"
    by (simp add: lookup_def unknown_agent_url [OF assms(2)])
  then show ?thesis by (simp add: preloadStorylaneDemos_def)
qed

lemma preload_keys_known:
  assumes "status_keys_known d"
  shows "status_keys_known (preloadStorylaneDemos inh a d)"
proof (cases "known_agent a")
  case False
  then show ?thesis using assms by (simp add: preload_unknown)
next
  case True
  have "status_keys_known (d\<lparr>body_frames := fs, status := AList.update a True (status d)\<rparr>)" for fs
    using True assms by (simp add: status_keys_known_def keys_update)
  then show ?thesis using assms
    by (simp add: preloadStorylaneDemos_def split: option.splits)
qed

lemma status_keys_known_cong:
  "status d' = status d \<Longrightarrow> status_keys_known d' = status_keys_known d"
  by (simp add: status_keys_known_def)

lemma do_call_keys_known:
  assumes "status_keys_known d"
  shows "status_keys_known (do_call css inh c d)"
proof (cases "\<exists>b. c = Preload b")
  case True
  then show ?thesis using assms by (auto simp: preload_keys_known)
next
  case False
  then have "status (do_call css inh c d) = status d" using do_call_status [of css inh c d] by blast
  from status_keys_known_cong [OF this] show ?thesis using assms by simp
qed

lemma do_calls_keys_known:
  "status_keys_known d \<Longrightarrow> status_keys_known (do_calls css inh cs d)"
proof (induction cs rule: rev_induct)
  case Nil
  then show ?case by (simp add: do_calls_def)
next
  case (snoc c cs)
  then show ?case by (simp add: do_calls_snoc do_call_keys_known)
qed

text \<open>
  C8. For an agent id that is not one of the four keys, \<open>preloadStorylaneDemos\<close> is a
  no-op on every document that the four functions can reach from the initial status
  table: no iframe is attached and no key is marked. A name inherited from
  \<open>Object.prototype\<close> reads as already loaded and returns at the first check; any other
  unknown name has no URL. The function has no failing path.
\<close>

theorem preload_unknown_noop:
  assumes "status d0 = initial_status" and "\<not> known_agent agentId"
  shows "preloadStorylaneDemos inh agentId (do_calls css inh cs d0) = do_calls css inh cs d0"
  using preload_unknown [OF do_calls_keys_known [OF initial_keys_known [OF assms(1)]] assms(2)] .

lemma unknown_facts:
  "status example_document = initial_status"
  "\<not> known_agent ''unknown-key''" "\<not> known_agent ''constructor''"
  by code_simp+

theorem preload_unknown_noop_witness:
  "preloadStorylaneDemos object_prototype ''unknown-key''
     (do_calls strict_engine object_prototype [Preload ''po-agent'', Activate ''po-agent''] example_document) =
     do_calls strict_engine object_prototype [Preload ''po-agent'', Activate ''po-agent''] example_document \<and>
   preloadStorylaneDemos object_prototype ''constructor'' (do_calls strict_engine object_prototype [] example_document) =
     do_calls strict_engine object_prototype [] example_document"
  using preload_unknown_noop [OF unknown_facts(1,2), of object_prototype]
    preload_unknown_noop [OF unknown_facts(1,3), of object_prototype]
  by blast

section \<open>The modals\<close>

lemma replace_first_set: "set (replace_first P v xs) \<subseteq> insert v (set xs)"
  by (induction xs) auto

lemma replace_first_filter:
  "(\<forall>x \<in> set xs. \<not> Q x) \<Longrightarrow> set (filter Q (replace_first P v xs)) \<subseteq> {v} \<and>
     length (filter Q (replace_first P v xs)) \<le> 1"
  by (induction xs) auto

lemma replace_first_map:
  "find P xs = Some m \<Longrightarrow> f v = f m \<Longrightarrow> map f (replace_first P v xs) = map f xs"
  by (induction xs) (auto split: if_splits)

lemma find_Some_holds: "find P xs = Some x \<Longrightarrow> P x \<and> x \<in> set xs"
  by (induction xs) (auto split: if_splits)

lemma is_open_classes: "el_classes e' = el_classes e \<Longrightarrow> is_open e' = is_open e"
  by (simp add: is_open_def)

lemma open_count_classes:
  "map el_classes xs = map el_classes ys \<Longrightarrow>
     length (filter is_open xs) = length (filter is_open ys)"
proof (induction xs arbitrary: ys)
  case Nil
  then show ?case by simp
next
  case (Cons x xs)
  then obtain y ys' where ys: "ys = y # ys'" by (cases ys) auto
  with Cons.prems have "el_classes x = el_classes y" "map el_classes xs = map el_classes ys'"
    by simp_all
  then show ?case using Cons.IH [of ys'] is_open_classes [of x y] by (simp add: ys)
qed

lemma close_none_open: "open_panels (closeStoryLaneModals d) = []"
  by (auto simp: open_panels_def closeStoryLaneModals_def filter_empty_conv is_open_def)

lemma swap_classes:
  "map el_classes (elements (after_swap css inh a d)) = map el_classes (elements d)"
proof -
  from swap_cases [of css inh a d] consider
    "after_swap css inh a d = d"
    | i m frames where "find_element d i = Some m"
        "after_swap css inh a d = set_element i (m\<lparr>sl_embed := Some frames\<rparr>) d"
    by (auto simp: after_swap_def)
  then show ?thesis
  proof cases
    case 1
    then show ?thesis by simp
  next
    case 2
    from 2(1) have m: "find (\<lambda>e. el_id e = Some i) (elements d) = Some m"
      by (simp add: find_element_def)
    have "map el_classes (replace_first (\<lambda>e. el_id e = Some i) (m\<lparr>sl_embed := Some frames\<rparr>)
        (elements d)) = map el_classes (elements d)"
      by (rule replace_first_map [OF m]) simp
    then show ?thesis by (simp add: 2(2) set_element_def)
  qed
qed

lemma swap_open_count:
  "length (open_panels (after_swap css inh a d)) = length (open_panels d)"
  unfolding open_panels_def by (rule open_count_classes [OF swap_classes])

lemma preload_elements [simp]: "elements (preloadStorylaneDemos inh a d) = elements d"
  by (simp add: preloadStorylaneDemos_def split: option.splits)

lemma no_open_iff: "open_panels d = [] \<longleftrightarrow> (\<forall>y \<in> set (elements d). \<not> is_open y)"
  by (simp add: open_panels_def filter_empty_conv)

lemma hide_first_iframe_fields [simp]:
  "el_id (hide_first_iframe e) = el_id e" "el_classes (hide_first_iframe e) = el_classes e"
  by (simp_all add: hide_first_iframe_def split: option.splits list.splits)

lemma activate_elements:
  "elements (activate_modal i used d) = elements d \<or>
   (\<exists>X. el_id X = Some i \<and>
      elements (activate_modal i used d) = replace_first (\<lambda>e. el_id e = Some i) X (elements d))"
proof (cases "find_element d i")
  case None
  then show ?thesis by (simp add: activate_modal_def)
next
  case (Some modal)
  then have id: "el_id modal = Some i"
    using find_Some_holds [of "\<lambda>e. el_id e = Some i" "elements d" modal]
    by (simp add: find_element_def)
  define X where "X = (if used
      then modal\<lparr>el_classes := class_add ''active'' (el_classes modal)\<rparr>
      else hide_first_iframe (modal\<lparr>el_classes := class_add ''active'' (el_classes modal)\<rparr>))"
  have "el_id X = Some i" by (simp add: X_def id)
  moreover from Some have
    "elements (activate_modal i used d) = replace_first (\<lambda>e. el_id e = Some i) X (elements d)"
    by (simp add: activate_modal_def Let_def set_element_def X_def)
  ultimately show ?thesis by blast
qed

lemma show_elements:
  "\<exists>ys. (\<forall>y \<in> set ys. \<not> is_open y) \<and>
     (elements (snd (showStoryLaneModal css inh a d0)) = ys \<or>
      (\<exists>modalId X. lookup inh modalMap a = Some modalId \<and> el_id X = Some modalId \<and>
         elements (snd (showStoryLaneModal css inh a d0)) =
           replace_first (\<lambda>e. el_id e = Some modalId) X ys))"
proof -
  let ?d = "closeStoryLaneModals d0"
  let ?d1 = "?d\<lparr>body_overflow := ''hidden''\<rparr>"
  let ?shown = "snd (showStoryLaneModal css inh a d0)"
  have closed: "\<forall>y \<in> set (elements ?d). \<not> is_open y"
    using close_none_open [of d0] by (simp only: no_open_iff)
  from show_cases [of css inh a d0] consider
    "?shown = ?d" | "?shown = ?d1"
    | modalId used where "lookup inh modalMap a = Some modalId"
        "?shown = activate_modal modalId used
          (if storylaneUtils d0 then after_swap css inh a ?d1 else ?d1)"
    by blast
  then show ?thesis
  proof cases
    case 1
    with closed show ?thesis by auto
  next
    case 2
    then have "elements ?shown = elements ?d" by simp
    with closed show ?thesis by auto
  next
    case 3
    define res where "res = (if storylaneUtils d0 then after_swap css inh a ?d1 else ?d1)"
    have "open_panels ?d1 = []" using close_none_open [of d0] by (simp add: open_panels_def)
    moreover have "length (open_panels res) = length (open_panels ?d1)"
      by (simp add: res_def swap_open_count)
    ultimately have "open_panels res = []" by simp
    then have none: "\<forall>y \<in> set (elements res). \<not> is_open y"
      by (simp only: no_open_iff)
    from 3(2) have shown: "?shown = activate_modal modalId used res" by (simp only: res_def)
    from activate_elements [of modalId used res] show ?thesis
    proof
      assume "elements (activate_modal modalId used res) = elements res"
      with shown have "elements ?shown = elements res" by simp
      with none show ?thesis by blast
    next
      assume "\<exists>X. el_id X = Some modalId \<and>
        elements (activate_modal modalId used res) =
          replace_first (\<lambda>e. el_id e = Some modalId) X (elements res)"
      then obtain X where X: "el_id X = Some modalId"
        and "elements (activate_modal modalId used res) =
          replace_first (\<lambda>e. el_id e = Some modalId) X (elements res)"
        by blast
      with shown have
        "elements ?shown = replace_first (\<lambda>e. el_id e = Some modalId) X (elements res)"
        by simp
      with none X 3(1) show ?thesis by blast
    qed
  qed
qed

lemma show_open:
  "length (open_panels (snd (showStoryLaneModal css inh a d))) \<le> 1 \<and>
   (\<forall>e \<in> set (open_panels (snd (showStoryLaneModal css inh a d))).
      \<exists>modalId. lookup inh modalMap a = Some modalId \<and> el_id e = Some modalId)"
proof -
  let ?shown = "snd (showStoryLaneModal css inh a d)"
  from show_elements [of css inh a d] obtain ys where
    ys: "\<forall>y \<in> set ys. \<not> is_open y"
    and e: "elements ?shown = ys \<or>
      (\<exists>modalId X. lookup inh modalMap a = Some modalId \<and> el_id X = Some modalId \<and>
         elements ?shown = replace_first (\<lambda>e. el_id e = Some modalId) X ys)"
    by blast
  from e show ?thesis
  proof
    assume "elements ?shown = ys"
    with ys have "open_panels ?shown = []"
      by (simp add: open_panels_def filter_empty_conv)
    then show ?thesis by simp
  next
    assume "\<exists>modalId X. lookup inh modalMap a = Some modalId \<and> el_id X = Some modalId \<and>
         elements ?shown = replace_first (\<lambda>e. el_id e = Some modalId) X ys"
    then obtain modalId X where l: "lookup inh modalMap a = Some modalId"
      and X: "el_id X = Some modalId"
      and el: "elements ?shown = replace_first (\<lambda>e. el_id e = Some modalId) X ys"
      by blast
    from replace_first_filter [OF ys, of "\<lambda>e. el_id e = Some modalId" X]
    have "set (open_panels ?shown) \<subseteq> {X}"
      and "length (open_panels ?shown) \<le> 1"
      by (simp_all add: open_panels_def el)
    with l X show ?thesis by blast
  qed
qed

lemma do_call_open:
  assumes "is_modal_call c"
  shows "length (open_panels (do_call css inh c d)) \<le> 1"
proof (cases c)
  case (Activate a)
  then show ?thesis using show_open [of css inh a d] by simp
next
  case Deactivate
  then show ?thesis by (simp add: close_none_open)
qed (use assms in simp_all)

lemma do_call_open_kept:
  assumes "\<not> is_modal_call c"
  shows "length (open_panels (do_call css inh c d)) = length (open_panels d)"
proof (cases c)
  case (Preload a)
  then show ?thesis by (simp add: open_panels_def)
next
  case (Swap a)
  then show ?thesis by (simp add: swap_open_count)
qed (use assms in simp_all)

lemma do_calls_open:
  "\<exists>c \<in> set cs. is_modal_call c \<Longrightarrow> length (open_panels (do_calls css inh cs d)) \<le> 1"
proof (induction cs rule: rev_induct)
  case Nil
  then show ?case by simp
next
  case (snoc c cs)
  show ?case
  proof (cases "is_modal_call c")
    case True
    then show ?thesis using do_call_open [of c css inh "do_calls css inh cs d"]
      by (simp only: do_calls_snoc)
  next
    case False
    with snoc.prems have "\<exists>c \<in> set cs. is_modal_call c" by auto
    then have "length (open_panels (do_calls css inh cs d)) \<le> 1" by (rule snoc.IH)
    then show ?thesis using do_call_open_kept [OF False, of css inh "do_calls css inh cs d"]
      by (simp only: do_calls_snoc)
  qed
qed

text \<open>
  C4. After any sequence of calls that contains a call of \<open>showStoryLaneModal\<close> or
  \<open>closeStoryLaneModals\<close>, at most one element matches \<open>.storylane-modal.active\<close>;
  calls of the preloader in between change nothing. After \<open>showStoryLaneModal x\<close>
  and then \<open>showStoryLaneModal y\<close>, every open panel is the element that the modal
  id of y names.
\<close>

theorem at_most_one_panel_open:
  "((\<exists>c \<in> set cs. is_modal_call c) \<longrightarrow> length (open_panels (do_calls css inh cs d)) \<le> 1) \<and>
   open_panels (closeStoryLaneModals d) = [] \<and>
   (\<forall>e \<in> set (open_panels (snd (showStoryLaneModal css inh y
                                     (snd (showStoryLaneModal css inh x d))))).
      \<exists>modalId. lookup inh modalMap y = Some modalId \<and> el_id e = Some modalId)"
proof (intro conjI impI)
  assume "\<exists>c \<in> set cs. is_modal_call c"
  then show "length (open_panels (do_calls css inh cs d)) \<le> 1" by (rule do_calls_open)
next
  show "open_panels (closeStoryLaneModals d) = []" by (rule close_none_open)
next
  show "\<forall>e \<in> set (open_panels (snd (showStoryLaneModal css inh y
                                     (snd (showStoryLaneModal css inh x d))))).
      \<exists>modalId. lookup inh modalMap y = Some modalId \<and> el_id e = Some modalId"
    using show_open [of css inh y "snd (showStoryLaneModal css inh x d)"] by (rule conjunct2)
qed


lemma one_panel_facts:
  "\<exists>c \<in> set [Activate ''po-agent'', Preload ''claim-agent'', Activate ''claim-agent''].
     is_modal_call c"
  by simp

lemma one_panel_evaluated:
  "map el_id (open_panels (snd (showStoryLaneModal strict_engine object_prototype ''claim-agent''
     (snd (showStoryLaneModal strict_engine object_prototype ''po-agent'' example_document))))) =
     [Some ''storylane-modal-claim'']"
  by code_simp

theorem at_most_one_panel_open_witness:
  "length (open_panels (do_calls strict_engine object_prototype
     [Activate ''po-agent'', Preload ''claim-agent'', Activate ''claim-agent'']
     example_document)) \<le> 1 \<and>
   map el_id (open_panels (snd (showStoryLaneModal strict_engine object_prototype ''claim-agent''
     (snd (showStoryLaneModal strict_engine object_prototype ''po-agent'' example_document))))) =
     [Some ''storylane-modal-claim'']"
  using at_most_one_panel_open [THEN conjunct1, THEN mp, OF one_panel_facts, of strict_engine
      object_prototype example_document]
    one_panel_evaluated
  by (rule conjI)
section \<open>Swapping a preloaded iframe in\<close>

lemma find_none: "(\<forall>x \<in> set xs. \<not> P x) \<Longrightarrow> find P xs = None"
  by (simp add: find_None_iff)

lemma find_skip: "(\<forall>x \<in> set xs. \<not> P x) \<Longrightarrow> find P (xs @ ys) = find P ys"
  by (induction xs) auto

lemma embedded_not_preloader:
  assumes "no_embedded_preloader d"
  shows "\<forall>f \<in> set (concat (map embedded (elements d))). \<not> is_preloader a f"
  using assms by (auto simp: no_embedded_preloader_def list_all_iff is_preloader_def)

lemma find_body:
  "no_embedded_preloader d \<Longrightarrow>
     find (is_preloader a) (all_iframes d) = find (is_preloader a) (body_frames d)"
  unfolding all_iframes_def
  by (rule find_skip) (rule embedded_not_preloader)

lemma query_plain:
  "css_plain a \<Longrightarrow> query_preloader css d a = Inr (find (is_preloader a) (all_iframes d))"
  by (simp add: query_preloader_def)

lemma plain_not_unbalanced: "css_unbalanced a \<Longrightarrow> \<not> css_plain a"
  by (auto simp: css_unbalanced_def css_plain_def list_all_iff)

lemma query_unbalanced: "css_unbalanced a \<Longrightarrow> query_preloader css d a = Inl SyntaxError"
  by (simp add: query_preloader_def plain_not_unbalanced)

lemma swap_throws: "css_unbalanced a \<Longrightarrow> swapPreloadedIframe css inh a d = Inl SyntaxError"
  by (simp add: swapPreloadedIframe_def query_unbalanced)

lemma swap_false:
  "css_plain a \<Longrightarrow> find (is_preloader a) (all_iframes d) = None \<Longrightarrow>
     swapPreloadedIframe css inh a d = Inr (False, d)"
  by (simp add: swapPreloadedIframe_def query_plain)

lemma swap_returns:
  assumes "css_plain a"
  shows "\<exists>r. swapPreloadedIframe css inh a d = Inr r"
  by (auto simp: swapPreloadedIframe_def query_plain [OF assms] Let_def split: option.splits)

lemma swap_true:
  assumes "css_plain a" and "swapPreloadedIframe css inh a d = Inr (True, d')"
  shows "\<exists>f modalId modal frames.
           find (is_preloader a) (all_iframes d) = Some f \<and>
           lookup inh modalMap a = Some modalId \<and>
           find_element d modalId = Some modal \<and> sl_embed modal = Some frames \<and>
           d' = set_element modalId
                  (modal\<lparr>sl_embed := Some (drop 1 frames @ [cloneFrame f])\<rparr>) d"
  using swap_cases [of css inh a d] assms(2) query_plain [OF assms(1), of css d]
  by auto

lemma replace_first_find:
  "find P xs = Some m \<Longrightarrow> P v \<Longrightarrow> find P (replace_first P v xs) = Some v"
  by (induction xs) (auto split: if_splits)

lemma find_element_set_element:
  "find_element d i = Some m \<Longrightarrow> el_id e = Some i \<Longrightarrow>
     find_element (set_element i e d) i = Some e"
  unfolding find_element_def set_element_def
  by (simp add: replace_first_find)

lemma replace_first_all:
  "list_all Q xs \<Longrightarrow> Q v \<Longrightarrow> list_all Q (replace_first P v xs)"
  by (induction xs) auto

lemma cloned_embed_clean:
  assumes "no_embedded_preloader d" "find_element d i = Some modal" "sl_embed modal = Some frames"
  shows "no_embedded_preloader
           (set_element i (modal\<lparr>sl_embed := Some (drop 1 frames @ [cloneFrame f])\<rparr>) d)"
proof -
  let ?clean = "\<lambda>f. \<not> class_contains ''storylane-preloader'' (frame_classes f)"
  have "modal \<in> set (elements d)"
    using find_Some_holds [of "\<lambda>e. el_id e = Some i" "elements d" modal] assms(2)
    by (simp add: find_element_def)
  with assms(1,3) have "list_all ?clean frames"
    by (auto simp: no_embedded_preloader_def list_all_iff embedded_def)
  then have "list_all ?clean (drop 1 frames)"
    by (auto simp: list_all_iff dest: in_set_dropD)
  moreover have "?clean (cloneFrame f)"
    by (simp add: cloneFrame_def class_contains_def)
  ultimately have "list_all ?clean
      (embedded (modal\<lparr>sl_embed := Some (drop 1 frames @ [cloneFrame f])\<rparr>))"
    by (simp add: embedded_def)
  with assms(1) show ?thesis
    unfolding no_embedded_preloader_def set_element_def
    by (simp add: replace_first_all)
qed

text \<open>
  C7. Claimed: whenever no preloaded iframe exists for an agent id, \<open>swapPreloadedIframe\<close>
  returns false. It does not for the agent id that is one double quote: no iframe of the
  document carries that id, and with every selector engine the call ends in the
  SyntaxError of \<open>querySelector\<close> instead of returning.
\<close>

theorem swap_throws_counterexample:
  "find (is_preloader quote_id) (all_iframes example_document) = None \<and>
   (\<forall>css. swapPreloadedIframe css object_prototype quote_id example_document = Inl SyntaxError \<and>
          swapPreloadedIframe css object_prototype quote_id example_document \<noteq>
            Inr (False, example_document))"
proof -
  have none: "find (is_preloader quote_id) (all_iframes example_document) = None"
    by code_simp
  have quoted: "css_unbalanced quote_id" by code_simp
  show ?thesis using none swap_throws [OF quoted] by simp
qed

text \<open>
  C7, amended. On a document whose static markup holds no iframe of class
  \<open>storylane-preloader\<close>:
  \<^item> for an agent id free of the characters that end or escape a CSS string, the call
    returns; it returns false and leaves the document as it is when no iframe of class
    \<open>storylane-preloader\<close> carries the id;
  \<^item> when it returns true for such an id, the matching iframe is one of those appended
    to the body and carries the id; the first iframe of the target container is removed
    and one iframe is appended there, which has the \<open>src\<close> and the
    \<open>data-agent-id\<close> of the preloaded one, the class \<open>sl-demo\<close>, the styles of a
    visible full-size frame and neither \<open>aria-hidden\<close> nor \<open>tabindex\<close>; the body's
    iframes and the status table are untouched, so the same preloaded iframe is found
    again by a later call;
  \<^item> for an agent id made of name characters and at least one double quote, the call
    throws a SyntaxError.
\<close>

theorem swap_clones_preloaded_frame:
  assumes "no_embedded_preloader d"
  shows "(css_plain agentId \<longrightarrow> (\<exists>r. swapPreloadedIframe css inh agentId d = Inr r)) \<and>
         (css_plain agentId \<and> find (is_preloader agentId) (all_iframes d) = None \<longrightarrow>
            swapPreloadedIframe css inh agentId d = Inr (False, d)) \<and>
         (css_unbalanced agentId \<longrightarrow> swapPreloadedIframe css inh agentId d = Inl SyntaxError) \<and>
         (\<forall>d'. css_plain agentId \<and> swapPreloadedIframe css inh agentId d = Inr (True, d') \<longrightarrow>
            (\<exists>preloadedFrame modalId modal frames clonedFrame.
               find (is_preloader agentId) (all_iframes d) = Some preloadedFrame \<and>
               preloadedFrame \<in> set (body_frames d) \<and>
               data_agent_id preloadedFrame = Some agentId \<and>
               class_contains ''storylane-preloader'' (frame_classes preloadedFrame) \<and>
               lookup inh modalMap agentId = Some modalId \<and>
               find_element d modalId = Some modal \<and> sl_embed modal = Some frames \<and>
               find_element d' modalId =
                 Some (modal\<lparr>sl_embed := Some (drop 1 frames @ [clonedFrame])\<rparr>) \<and>
               src clonedFrame = src preloadedFrame \<and>
               data_agent_id clonedFrame = Some agentId \<and>
               frame_classes clonedFrame = [''sl-demo''] \<and>
               aria_hidden clonedFrame = None \<and> tabindex clonedFrame = None \<and>
               st_position clonedFrame = ''absolute'' \<and>
               st_top clonedFrame = ''0'' \<and> st_left clonedFrame = ''0'' \<and>
               st_width clonedFrame = ''100%'' \<and> st_height clonedFrame = ''100%'' \<and>
               st_border clonedFrame = ''none'' \<and> st_opacity clonedFrame = ''1'' \<and>
               st_pointerEvents clonedFrame = ''auto'' \<and> st_zIndex clonedFrame = ''1'' \<and>
               body_frames d' = body_frames d \<and> status d' = status d \<and>
               find (is_preloader agentId) (all_iframes d') = Some preloadedFrame \<and>
               no_embedded_preloader d'))"
proof (intro conjI allI impI)
  assume "css_plain agentId"
  then show "\<exists>r. swapPreloadedIframe css inh agentId d = Inr r" by (rule swap_returns)
next
  assume "css_plain agentId \<and> find (is_preloader agentId) (all_iframes d) = None"
  then show "swapPreloadedIframe css inh agentId d = Inr (False, d)"
    by (simp add: swap_false)
next
  assume "css_unbalanced agentId"
  then show "swapPreloadedIframe css inh agentId d = Inl SyntaxError" by (rule swap_throws)
next
  fix d'
  assume "css_plain agentId \<and> swapPreloadedIframe css inh agentId d = Inr (True, d')"
  then have plain: "css_plain agentId"
    and swapped: "swapPreloadedIframe css inh agentId d = Inr (True, d')"
    by simp_all
  from swap_true [OF plain swapped] obtain f modalId modal frames where
    q: "find (is_preloader agentId) (all_iframes d) = Some f"
    and l: "lookup inh modalMap agentId = Some modalId"
    and m: "find_element d modalId = Some modal"
    and e: "sl_embed modal = Some frames"
    and d': "d' = set_element modalId
        (modal\<lparr>sl_embed := Some (drop 1 frames @ [cloneFrame f])\<rparr>) d"
    by blast
  have "find (is_preloader agentId) (body_frames d) = Some f"
    using q find_body [OF assms, of agentId] by simp
  then have "is_preloader agentId f \<and> f \<in> set (body_frames d)"
    by (rule find_Some_holds)
  then have body: "f \<in> set (body_frames d)"
    and agent: "data_agent_id f = Some agentId"
    and cls: "class_contains ''storylane-preloader'' (frame_classes f)"
    by (simp_all add: is_preloader_def)
  have id: "el_id modal = Some modalId"
    using find_Some_holds [of "\<lambda>e. el_id e = Some modalId" "elements d" modal] m
    by (simp add: find_element_def)
  have found: "find_element d' modalId =
      Some (modal\<lparr>sl_embed := Some (drop 1 frames @ [cloneFrame f])\<rparr>)"
    unfolding d' by (rule find_element_set_element [OF m]) (simp add: id)
  have clean: "no_embedded_preloader d'"
    unfolding d' by (rule cloned_embed_clean [OF assms m e])
  have frames: "body_frames d' = body_frames d" and st: "status d' = status d"
    by (simp_all add: d' set_element_def)
  have again: "find (is_preloader agentId) (all_iframes d') = Some f"
    using find_body [OF clean, of agentId] find_body [OF assms, of agentId] q frames
    by simp
  have clone:
    "src (cloneFrame f) = src f" "data_agent_id (cloneFrame f) = Some agentId"
    "frame_classes (cloneFrame f) = [''sl-demo'']"
    "aria_hidden (cloneFrame f) = None" "tabindex (cloneFrame f) = None"
    "st_position (cloneFrame f) = ''absolute''"
    "st_top (cloneFrame f) = ''0''" "st_left (cloneFrame f) = ''0''"
    "st_width (cloneFrame f) = ''100%''" "st_height (cloneFrame f) = ''100%''"
    "st_border (cloneFrame f) = ''none''" "st_opacity (cloneFrame f) = ''1''"
    "st_pointerEvents (cloneFrame f) = ''auto''" "st_zIndex (cloneFrame f) = ''1''"
    by (simp_all add: cloneFrame_def agent)
  show "\<exists>preloadedFrame modalId modal frames clonedFrame.
      find (is_preloader agentId) (all_iframes d) = Some preloadedFrame \<and>
      preloadedFrame \<in> set (body_frames d) \<and>
      data_agent_id preloadedFrame = Some agentId \<and>
      class_contains ''storylane-preloader'' (frame_classes preloadedFrame) \<and>
      lookup inh modalMap agentId = Some modalId \<and>
      find_element d modalId = Some modal \<and> sl_embed modal = Some frames \<and>
      find_element d' modalId =
        Some (modal\<lparr>sl_embed := Some (drop 1 frames @ [clonedFrame])\<rparr>) \<and>
      src clonedFrame = src preloadedFrame \<and>
      data_agent_id clonedFrame = Some agentId \<and>
      frame_classes clonedFrame = [''sl-demo''] \<and>
      aria_hidden clonedFrame = None \<and> tabindex clonedFrame = None \<and>
      st_position clonedFrame = ''absolute'' \<and>
      st_top clonedFrame = ''0'' \<and> st_left clonedFrame = ''0'' \<and>
      st_width clonedFrame = ''100%'' \<and> st_height clonedFrame = ''100%'' \<and>
      st_border clonedFrame = ''none'' \<and> st_opacity clonedFrame = ''1'' \<and>
      st_pointerEvents clonedFrame = ''auto'' \<and> st_zIndex clonedFrame = ''1'' \<and>
      body_frames d' = body_frames d \<and> status d' = status d \<and>
      find (is_preloader agentId) (all_iframes d') = Some preloadedFrame \<and>
      no_embedded_preloader d'"
    apply (rule exI [of _ f], rule exI [of _ modalId], rule exI [of _ modal])
    apply (rule exI [of _ frames], rule exI [of _ "cloneFrame f"])
    apply (intro conjI)
    apply (fact q body agent cls l m e found clone frames st again clean)+
    done
qed

lemma swap_example_facts:
  "no_embedded_preloader example_document"
  "no_embedded_preloader preloaded_document"
  "css_plain ''po-agent''"
  "find (is_preloader ''po-agent'') (all_iframes example_document) = None"
  "swapPreloadedIframe strict_engine object_prototype ''po-agent'' preloaded_document =
     Inr (True, swapped_document)"
  "css_unbalanced quote_id"
  by code_simp+

theorem swap_clones_preloaded_frame_witness:
  "swapPreloadedIframe strict_engine object_prototype ''po-agent'' example_document =
     Inr (False, example_document) \<and>
   swapPreloadedIframe strict_engine object_prototype ''po-agent'' preloaded_document =
     Inr (True, swapped_document) \<and>
   swapPreloadedIframe strict_engine object_prototype quote_id example_document =
     Inl SyntaxError \<and>
   body_frames swapped_document = body_frames preloaded_document \<and>
   (\<exists>f c frames. find (is_preloader ''po-agent'') (all_iframes preloaded_document) = Some f \<and>
        find (is_preloader ''po-agent'') (all_iframes swapped_document) = Some f \<and>
        f \<in> set (body_frames preloaded_document) \<and>
        map_option sl_embed (find_element swapped_document ''storylane-modal-po'') =
          Some (Some (frames @ [c])) \<and>
        src c = src f \<and> data_agent_id c = Some ''po-agent'' \<and>
        frame_classes c = [''sl-demo''])"
proof -
  note swap = swap_clones_preloaded_frame [where css = strict_engine and inh = object_prototype]
  have no_frame: "swapPreloadedIframe strict_engine object_prototype ''po-agent''
      example_document = Inr (False, example_document)"
    using swap [OF swap_example_facts(1), of "''po-agent''", THEN conjunct2, THEN conjunct1]
      swap_example_facts(3,4)
    by simp
  have thrown: "swapPreloadedIframe strict_engine object_prototype quote_id example_document =
      Inl SyntaxError"
    using swap [OF swap_example_facts(1), of quote_id, THEN conjunct2, THEN conjunct2,
        THEN conjunct1] swap_example_facts(6)
    by simp
  have po: "lookup object_prototype modalMap ''po-agent'' = Some ''storylane-modal-po''"
    by code_simp
  from swap [OF swap_example_facts(2), of "''po-agent''", THEN conjunct2, THEN conjunct2,
      THEN conjunct2, THEN spec, THEN mp, OF conjI, OF swap_example_facts(3,5)]
  obtain f modalId modal frames c where
    "find (is_preloader ''po-agent'') (all_iframes preloaded_document) = Some f"
    and "f \<in> set (body_frames preloaded_document)"
    and "lookup object_prototype modalMap ''po-agent'' = Some modalId"
    and "find_element swapped_document modalId =
      Some (modal\<lparr>sl_embed := Some (drop 1 frames @ [c])\<rparr>)"
    and "src c = src f" and "data_agent_id c = Some ''po-agent''"
    and "frame_classes c = [''sl-demo'']"
    and "body_frames swapped_document = body_frames preloaded_document"
    and "find (is_preloader ''po-agent'') (all_iframes swapped_document) = Some f"
    by blast
  with po have "find (is_preloader ''po-agent'') (all_iframes preloaded_document) = Some f \<and>
        find (is_preloader ''po-agent'') (all_iframes swapped_document) = Some f \<and>
        f \<in> set (body_frames preloaded_document) \<and>
        map_option sl_embed (find_element swapped_document ''storylane-modal-po'') =
          Some (Some (drop 1 frames @ [c])) \<and>
        src c = src f \<and> data_agent_id c = Some ''po-agent'' \<and>
        frame_classes c = [''sl-demo'']"
    and same: "body_frames swapped_document = body_frames preloaded_document"
    by simp_all
  then have "\<exists>f c frames. find (is_preloader ''po-agent'') (all_iframes preloaded_document) = Some f \<and>
        find (is_preloader ''po-agent'') (all_iframes swapped_document) = Some f \<and>
        f \<in> set (body_frames preloaded_document) \<and>
        map_option sl_embed (find_element swapped_document ''storylane-modal-po'') =
          Some (Some (frames @ [c])) \<and>
        src c = src f \<and> data_agent_id c = Some ''po-agent'' \<and>
        frame_classes c = [''sl-demo'']"
    by (intro exI)
  with no_frame swap_example_facts(5) thrown same show ?thesis by (intro conjI)
qed
section \<open>The stroke offset\<close>

text \<open>
  C10, as stated: calculateOffset(100, c) is 0 for every circumference. In double
  arithmetic it fails at the callers' own default circumference 2 * Math.PI * 20
  = 125.66370614359172: c * 100 / 100 comes back one unit in the last place below c, and
  the offset is \<open>2 ^ -46\<close>, about 1.42e-14.
\<close>

theorem calculateOffset_full_counterexample:
  "default_circumference = 4421398595017775 / 2 ^ 45 \<and>
   fl default_circumference = default_circumference \<and>
   calculateOffset 100 default_circumference = 1 / 2 ^ 46"
  by code_simp

lemma calculateOffset_not_strict:
  "calculateOffset (1 / 2 ^ 60) 1 = calculateOffset 0 1"
  by code_simp

lemma calculateOffset_antimono:
  assumes "0 \<le> c" "p \<le> q"
  shows "calculateOffset q c \<le> calculateOffset p c"
proof -
  have "c * p \<le> c * q" by (rule mult_left_mono [OF assms(2) assms(1)])
  then have "fl (c * p) / 100 \<le> fl (c * q) / 100"
    by (intro divide_right_mono fl_mono) simp_all
  then have "fl (fl (c * p) / 100) \<le> fl (fl (c * q) / 100)" by (rule fl_mono)
  then have "c - fl (fl (c * q) / 100) \<le> c - fl (fl (c * p) / 100)" by simp
  then show ?thesis
    unfolding calculateOffset_def js_sub_def js_div_def js_mul_def by (rule fl_mono)
qed

text \<open>
  C10, amended: calculateOffset(p, c) is c - c * p / 100 with each of the three
  operations rounded to a double. It returns c at p = 0 (c a double). At p = 100 it
  returns 0 exactly when c * 100 / 100 evaluates back to c. For a fixed c that is not
  negative it never increases with p.
\<close>

theorem calculateOffset_rounded:
  "calculateOffset p c = fl (c - fl (fl (c * p) / 100)) \<and>
   (fl c = c \<longrightarrow> calculateOffset 0 c = c) \<and>
   (calculateOffset 100 c = 0 \<longleftrightarrow> js_div (js_mul c 100) 100 = c) \<and>
   (0 \<le> c \<and> p \<le> q \<longrightarrow> calculateOffset q c \<le> calculateOffset p c)"
  using calculateOffset_antimono [of c p q]
  by (auto simp: calculateOffset_def js_sub_def js_div_def js_mul_def)

lemma offset_examples:
  "fl 100 = 100" "js_div (js_mul 100 100) 100 = 100"
  by code_simp+

theorem calculateOffset_rounded_witness:
  "calculateOffset 0 100 = 100 \<and> calculateOffset 100 100 = 0 \<and>
   calculateOffset 75 100 \<le> calculateOffset 25 100"
  using calculateOffset_rounded [of 0 100 0] calculateOffset_rounded [of 100 100 100]
    calculateOffset_rounded [of 25 100 75]
  by (simp add: offset_examples)

end
